theory Spec2Isabelle
  imports Main
begin

section \<open>Python strings\<close>

text \<open>
  A Python \<open>str\<close> is a sequence of Unicode code points; slicing, \<open>in\<close>, \<open>endswith\<close> and
  \<open>+\<close> work on code points, not on bytes. A string is therefore a list of code points,
  each a natural number. \<open>ascii\<close> turns an ASCII literal into such a list; the characters
  beyond ASCII that the script's literals hold are written as their code points.
\<close>

type_synonym str = "nat list"

definition ascii :: "string \<Rightarrow> str" where
  "ascii s = map of_char s"

text \<open>\<open>s.startswith(p)\<close> and \<open>s.endswith(suffix)\<close>.\<close>

definition startswith :: "str \<Rightarrow> str \<Rightarrow> bool" where
  "startswith s p = (take (length p) s = p)"

definition endswith :: "str \<Rightarrow> str \<Rightarrow> bool" where
  "endswith s suffix = (length suffix \<le> length s \<and> drop (length s - length suffix) s = suffix)"

text \<open>\<open>sub in s\<close>: \<open>sub\<close> occurs in \<open>s\<close> as a contiguous run of characters.\<close>

fun contains :: "str \<Rightarrow> str \<Rightarrow> bool" where
  "contains sub [] = (sub = [])"
| "contains sub (c # cs) = (startswith (c # cs) sub \<or> contains sub cs)"

text \<open>
  \<open>os.path.basename\<close> and \<open>os.path.join\<close> of \<open>posixpath\<close> (the script is a POSIX script:
  it starts with \<open>#!/usr/bin/env python3\<close> and names its directories with forward
  slashes). \<open>basename\<close> is what follows the last slash; \<open>join a b\<close> for one component
  \<open>b\<close> is \<open>b\<close> itself when \<open>b\<close> is absolute, and otherwise \<open>a\<close> and \<open>b\<close> with one
  slash between them unless \<open>a\<close> is empty or ends with a slash already.
\<close>

definition slash :: nat where
  "slash = 47"

definition basename :: "str \<Rightarrow> str" where
  "basename p = rev (takeWhile (\<lambda>c. c \<noteq> slash) (rev p))"

definition join :: "str \<Rightarrow> str \<Rightarrow> str" where
  "join a b =
     (if startswith b [slash] then b
      else if a = [] \<or> endswith a [slash] then a @ b
      else a @ [slash] @ b)"

text \<open>
  Numbers in texts: \<open>str(n)\<close> in decimal, and the four lower-case hexadecimal digits
  that \<open>repr\<close> and the codecs use for a character of the basic plane.
\<close>

fun decimal :: "nat \<Rightarrow> str" where
  "decimal n = (if n < 10 then [48 + n] else decimal (n div 10) @ [48 + n mod 10])"

definition hexdigit :: "nat \<Rightarrow> nat" where
  "hexdigit d = (if d < 10 then 48 + d else 87 + d)"

definition hex4 :: "nat \<Rightarrow> str" where
  "hex4 c = [hexdigit (c div 4096 mod 16), hexdigit (c div 256 mod 16),
            hexdigit (c div 16 mod 16), hexdigit (c mod 16)]"

section \<open>Exceptions\<close>

text \<open>
  The exceptions the script can meet, each with the text that \<open>str(e)\<close> gives. All of
  them are subclasses of \<open>Exception\<close>. For a \<open>KeyError\<close> the text is the key in quotes.
\<close>

datatype exn =
    OSError str
  | UnicodeDecodeError str
  | UnicodeEncodeError str
  | ValueError str
  | KeyError str
  | IndexError str

fun message :: "exn \<Rightarrow> str" where
  "message (OSError m) = m"
| "message (UnicodeDecodeError m) = m"
| "message (UnicodeEncodeError m) = m"
| "message (ValueError m) = m"
| "message (KeyError k) = ascii [CHR 0x27] @ k @ ascii [CHR 0x27]"
| "message (IndexError m) = m"

section \<open>The templates and \<open>str.format\<close>\<close>

definition TS_COPYRIGHT :: str where
  "TS_COPYRIGHT =
     ascii ''/**\<newline> * @file {filename}\<newline> * @description {description}\<newline> * @author Tomda\<newline> * @copyright ''
     @ [0x7248, 0x6743, 0x6240, 0x6709] @ ascii '' (c) 2026 UIED'' @ [0x6280, 0x672F, 0x56E2, 0x961F]
     @ ascii ''\<newline> * @website https://fsuied.com\<newline> * @license MIT\<newline> * @version 1.0.0\<newline> */\<newline>\<newline>''"

definition CSS_COPYRIGHT :: str where
  "CSS_COPYRIGHT =
     ascii ''/**\<newline> * @file {filename}\<newline> * @description {description}\<newline> * @author Tomda\<newline> * @copyright ''
     @ [0x7248, 0x6743, 0x6240, 0x6709] @ ascii '' (c) 2026 UIED'' @ [0x6280, 0x672F, 0x56E2, 0x961F]
     @ ascii ''\<newline> * @website https://fsuied.com\<newline> * @license MIT\<newline> * @version 1.0.0\<newline> */\<newline>\<newline>''"

text \<open>
  \<open>template.format(**kwargs)\<close> for keyword arguments that are strings. The template is
  read from left to right: \<open>{{\<close> and \<open>}}\<close> stand for one brace, \<open>{name}\<close> is replaced
  by the argument of that name, a brace alone is a \<open>ValueError\<close>, a name that is no
  keyword a \<open>KeyError\<close>, an empty or numbered field an \<open>IndexError\<close> (there are no
  positional arguments). The value of an argument is put into the result as it is: its
  own braces are never read as fields. The second argument of \<open>format_from\<close> is the name
  of the field being read, \<open>None\<close> outside a field.

  The fields of the two templates are plain names. Attribute and index lookups,
  conversions and format specifications (a field with one of \<open>. [ ! :\<close>) and a brace inside
  a field are not part of this model; such a field is reported as a \<open>ValueError\<close>.
\<close>

definition lbrace :: nat where
  "lbrace = 123"

definition rbrace :: nat where
  "rbrace = 125"

definition plain_name :: "str \<Rightarrow> bool" where
  "plain_name name = list_all (\<lambda>c. c \<notin> set (lbrace # ascii ''.[!:'')) name"

definition numbered :: "str \<Rightarrow> bool" where
  "numbered name = list_all (\<lambda>c. 48 \<le> c \<and> c \<le> 57) name"

definition field_value :: "(str \<times> str) list \<Rightarrow> str \<Rightarrow> exn + str" where
  "field_value kwargs name =
     (if \<not> plain_name name then Inl (ValueError (ascii ''unsupported replacement field''))
      else if numbered name
      then Inl (IndexError (ascii ''Replacement index out of range for positional args tuple''))
      else case map_of kwargs name of
             None \<Rightarrow> Inl (KeyError name)
           | Some v \<Rightarrow> Inr v)"

definition prepend :: "str \<Rightarrow> exn + str \<Rightarrow> exn + str" where
  "prepend v r = (case r of Inl e \<Rightarrow> Inl e | Inr out \<Rightarrow> Inr (v @ out))"

fun format_from :: "(str \<times> str) list \<Rightarrow> str option \<Rightarrow> str \<Rightarrow> exn + str" where
  "format_from kwargs None [] = Inr []"
| "format_from kwargs (Some name) [] =
     Inl (ValueError (ascii ''expected '' @ [0x27, rbrace, 0x27] @ ascii '' before end of string''))"
| "format_from kwargs (Some name) (c # cs) =
     (if c = rbrace
      then (case field_value kwargs name of
              Inl e \<Rightarrow> Inl e
            | Inr v \<Rightarrow> prepend v (format_from kwargs None cs))
      else format_from kwargs (Some (name @ [c])) cs)"
| "format_from kwargs None (c # cs) =
     (if c = lbrace
      then (case cs of
              [] \<Rightarrow> Inl (ValueError (ascii ''Single '' @ [0x27, lbrace, 0x27]
                                      @ ascii '' encountered in format string''))
            | d # ds \<Rightarrow>
                if d = lbrace then prepend [lbrace] (format_from kwargs None ds)
                else format_from kwargs (Some []) cs)
      else if c = rbrace
      then (case cs of
              [] \<Rightarrow> Inl (ValueError (ascii ''Single '' @ [0x27, rbrace, 0x27]
                                      @ ascii '' encountered in format string''))
            | d # ds \<Rightarrow>
                if d = rbrace then prepend [rbrace] (format_from kwargs None ds)
                else Inl (ValueError (ascii ''Single '' @ [0x27, rbrace, 0x27]
                                      @ ascii '' encountered in format string'')))
      else prepend [c] (format_from kwargs None cs))"

definition format :: "str \<Rightarrow> (str \<times> str) list \<Rightarrow> exn + str" where
  "format template kwargs = format_from kwargs None template"

section \<open>The header detector\<close>

definition has_copyright :: "str \<Rightarrow> bool" where
  "has_copyright content =
     (contains (ascii ''@file'') (take 500 content) \<or> contains (ascii ''@copyright'') (take 500 content))"


section \<open>Files\<close>

text \<open>
  The script opens every file in text mode with \<open>encoding='utf-8'\<close> and no \<open>newline\<close>
  argument. What a file holds is written as the code points its bytes decode to
  (\<open>Text\<close>): UTF-8 maps the sequences of code points other than surrogates one-to-one onto
  the valid byte sequences, so two files hold the same bytes exactly when they hold the
  same code points. UTF-8 has no encoding for a surrogate: a \<open>Text\<close> with a surrogate
  stands for the bytes \<open>ED A0 80\<close> to \<open>ED BF BF\<close> in its place, which the strict decoder
  rejects, as \<open>Garbage\<close> does for every other invalid byte sequence (with the decoder's
  message). Python's code points end at \<open>0x10FFFF\<close>; the model does not use the bound.

  \<open>read_denied\<close> and \<open>write_denied\<close> are what \<open>open(filepath, 'r')\<close> and
  \<open>open(filepath, 'w')\<close> raise on this file, if anything, given the path it is opened
  by (the text of an \<open>OSError\<close> names the path).
\<close>

datatype stored = Text str | Garbage str

record disk_file =
  stored :: stored
  read_denied :: "(str \<Rightarrow> exn) option"
  write_denied :: "(str \<Rightarrow> exn) option"

definition surrogate :: "nat \<Rightarrow> bool" where
  "surrogate c = (0xD800 \<le> c \<and> c \<le> 0xDFFF)"

definition encodable :: "str \<Rightarrow> bool" where
  "encodable s = list_all (\<lambda>c. \<not> surrogate c) s"

text \<open>
  The exception of the UTF-8 encoder on a text with a surrogate: it names the first run
  of surrogates by its position, and the character when the run is a single one.
\<close>

definition encode_error :: "str \<Rightarrow> exn" where
  "encode_error s =
     (let start = length (takeWhile (\<lambda>c. \<not> surrogate c) s);
          run = takeWhile surrogate (drop start s)
      in UnicodeEncodeError
           ([0x27] @ ascii ''utf-8'' @ [0x27] @ ascii '' codec can'' @ [0x27] @ ascii ''t encode ''
            @ (if length run = 1
               then ascii ''character '' @ [0x27, 0x5C] @ ascii ''u'' @ hex4 (hd run) @ [0x27]
                    @ ascii '' in position '' @ decimal start
               else ascii ''characters in position '' @ decimal start @ ascii ''-''
                    @ decimal (start + length run - 1))
            @ ascii '': surrogates not allowed''))"

text \<open>
  The exception of the strict UTF-8 decoder on the bytes of a \<open>Text\<close> with a surrogate:
  it names the byte \<open>0xed\<close> and its position, counted in bytes.
\<close>

definition utf8_length :: "nat \<Rightarrow> nat" where
  "utf8_length c = (if c < 0x80 then 1 else if c < 0x800 then 2 else if c < 0x10000 then 3 else 4)"

definition decode_error :: "str \<Rightarrow> exn" where
  "decode_error cs =
     UnicodeDecodeError
       ([0x27] @ ascii ''utf-8'' @ [0x27] @ ascii '' codec can'' @ [0x27]
        @ ascii ''t decode byte 0xed in position ''
        @ decimal (sum_list (map utf8_length (takeWhile (\<lambda>c. \<not> surrogate c) cs)))
        @ ascii '': invalid continuation byte'')"

text \<open>
  Reading in text mode with \<open>newline=None\<close> is universal-newlines mode: after decoding,
  every \<open>\r\n\<close> and every \<open>\r\<close> left alone is handed to the program as \<open>\n\<close>.
\<close>

fun universal_newlines :: "str \<Rightarrow> str" where
  "universal_newlines [] = []"
| "universal_newlines [c] = (if c = 13 then [10] else [c])"
| "universal_newlines (c # d # cs) =
     (if c = 13 \<and> d = 10 then 10 # universal_newlines cs
      else if c = 13 then 10 # universal_newlines (d # cs)
      else c # universal_newlines (d # cs))"

text \<open>\<open>with open(filepath, 'r', encoding='utf-8') as f: content = f.read()\<close>\<close>

definition read_text :: "disk_file \<Rightarrow> str \<Rightarrow> exn + str" where
  "read_text f filepath =
     (case read_denied f of
        Some refusal \<Rightarrow> Inl (refusal filepath)
      | None \<Rightarrow>
          (case stored f of
             Garbage m \<Rightarrow> Inl (UnicodeDecodeError m)
           | Text cs \<Rightarrow>
               if encodable cs then Inr (universal_newlines cs) else Inl (decode_error cs)))"

text \<open>
  \<open>with open(filepath, 'w', encoding='utf-8') as f: f.write(new_content)\<close>. When the
  open is refused the file is not touched. Otherwise the open has emptied the file;
  the text is encoded as a whole, which fails on a surrogate and then leaves the file
  empty, and else the file holds the text (on POSIX \<open>\n\<close> is written as it is).
  The result is the file afterwards and the exception raised, if any.
\<close>

definition write_text :: "disk_file \<Rightarrow> str \<Rightarrow> str \<Rightarrow> disk_file \<times> exn option" where
  "write_text f filepath s =
     (case write_denied f of
        Some refusal \<Rightarrow> (f, Some (refusal filepath))
      | None \<Rightarrow>
          if encodable s then (f\<lparr>stored := Text s\<rparr>, None)
          else (f\<lparr>stored := Text []\<rparr>, Some (encode_error s)))"

section \<open>The console\<close>

text \<open>
  \<open>print(line)\<close> writes to the standard output, which may refuse the line: a stream
  that encodes strictly raises \<open>UnicodeEncodeError\<close> on a character it cannot encode,
  and then nothing of the line is written. A console says for every line what \<open>print\<close>
  raises on it, if anything.
\<close>

type_synonym console = "str \<Rightarrow> exn option"

section \<open>The file processor\<close>

text \<open>The three lines the processor prints.\<close>

definition skipped :: "str \<Rightarrow> str" where
  "skipped filepath =
     [0x23ED, 0xFE0F] @ ascii ''  '' @ [0x8DF3, 0x8FC7] @ ascii '' '' @ filepath
     @ ascii '' ('' @ [0x5DF2, 0x6709, 0x7248, 0x6743, 0x6CE8, 0x91CA] @ ascii '')''"

definition added :: "str \<Rightarrow> str" where
  "added filepath =
     [0x2705] @ ascii '' '' @ [0x5DF2, 0x6DFB, 0x52A0, 0x7248, 0x6743, 0x6CE8, 0x91CA]
     @ ascii '': '' @ filepath"

definition failed :: "str \<Rightarrow> exn \<Rightarrow> str" where
  "failed filepath e =
     [0x274C] @ ascii '' '' @ [0x5904, 0x7406, 0x5931, 0x8D25] @ ascii '' '' @ filepath
     @ ascii '': '' @ message e"

text \<open>
  The body of the \<open>try\<close> statement of \<open>add_copyright_to_file\<close>, on the file that
  \<open>filepath\<close> names. It gives the file afterwards, the lines printed, and either the
  exception that left the body or the value returned. The two \<open>print\<close> calls of the
  body can raise as every other statement of it.
\<close>

definition try_body :: "console \<Rightarrow> disk_file \<Rightarrow> str \<Rightarrow> str
    \<Rightarrow> disk_file \<times> str list \<times> (exn + bool)" where
  "try_body console f filepath description =
     (case read_text f filepath of
        Inl e \<Rightarrow> (f, [], Inl e)
      | Inr content \<Rightarrow>
          if has_copyright content
          then (case console (skipped filepath) of
                  Some e \<Rightarrow> (f, [], Inl e)
                | None \<Rightarrow> (f, [skipped filepath], Inr False))
          else
            let filename = basename filepath in
            (case (if endswith filepath (ascii ''.css'')
                   then format CSS_COPYRIGHT
                          [(ascii ''filename'', filename), (ascii ''description'', description)]
                   else format TS_COPYRIGHT
                          [(ascii ''filename'', filename), (ascii ''description'', description)]) of
               Inl e \<Rightarrow> (f, [], Inl e)
             | Inr copyright \<Rightarrow>
                 let new_content = copyright @ content in
                 (case write_text f filepath new_content of
                    (f', Some e) \<Rightarrow> (f', [], Inl e)
                  | (f', None) \<Rightarrow>
                      (case console (added filepath) of
                         Some e \<Rightarrow> (f', [], Inl e)
                       | None \<Rightarrow> (f', [added filepath], Inr True)))))"

text \<open>
  \<open>add_copyright_to_file\<close>: the body under \<open>except Exception as e\<close>. The handler
  prints the failure line and returns \<open>False\<close>; its \<open>print\<close> is not guarded, so an
  exception it raises leaves the function. The result is the file afterwards, the
  lines printed, and either the exception that left the function or the value returned.
\<close>

definition add_copyright_to_file :: "console \<Rightarrow> disk_file \<Rightarrow> str \<Rightarrow> str
    \<Rightarrow> disk_file \<times> str list \<times> (exn + bool)" where
  "add_copyright_to_file console f filepath description =
     (case try_body console f filepath description of
        (f', out, Inr r) \<Rightarrow> (f', out, Inr r)
      | (f', out, Inl e) \<Rightarrow>
          (case console (failed filepath e) of
             Some e' \<Rightarrow> (f', out, Inl e')
           | None \<Rightarrow> (f', out @ [failed filepath e], Inr False)))"

section \<open>The directory walker\<close>

text \<open>
  The files are kept in a disk, one for each file number. A directory is the names
  that \<open>os.walk\<close> finds in it, in the order of the scan: the names that are no
  directories, each with the number of the file it leads to, and the subdirectories.
  Two names with the same number are two hard links to one file, or a file and a
  symbolic link to it: \<open>os.walk\<close> lists both among \<open>files\<close> and \<open>open\<close> follows a link.
  A symbolic link to a directory is listed among \<open>dirs\<close> and not entered, so it has no
  part in a walk and no place in a tree.

  \<open>os.walk\<close> hands the loop one directory at a time, the top one first; the loop takes
  the excluded names out of \<open>dirs\<close> and processes the files of that directory, and the
  walk then goes on into the subdirectories left in \<open>dirs\<close>. A path that is no directory
  gives no step at all. An exception that leaves \<open>add_copyright_to_file\<close> leaves the
  loops and \<open>process_directory\<close> as well: the result is the disk afterwards, the lines
  printed, and either that exception or the count returned.
\<close>

type_synonym disk = "nat \<Rightarrow> disk_file"

datatype dir = Dir "(str \<times> nat) list" "(str \<times> dir) list"

datatype target = Regular nat | Directory dir

definition EXCLUDED :: "str list" where
  "EXCLUDED = [ascii ''node_modules'', ascii ''dist'', ascii ''build'', ascii ''.git'']"

text \<open>The loop \<open>for file in files\<close> for the directory \<open>root\<close>.\<close>

fun files_loop :: "console \<Rightarrow> str \<Rightarrow> str \<Rightarrow> str list \<Rightarrow> (str \<times> nat) list \<Rightarrow> disk
    \<Rightarrow> disk \<times> str list \<times> (exn + nat)" where
  "files_loop console root description extensions [] d = (d, [], Inr 0)"
| "files_loop console root description extensions ((file, i) # rest) d =
     (if list_ex (\<lambda>ext. endswith file ext) extensions
      then
        let filepath = join root file in
        (case add_copyright_to_file console (d i) filepath description of
           (f', out, Inl e) \<Rightarrow> (d(i := f'), out, Inl e)
         | (f', out, Inr modified) \<Rightarrow>
             (case files_loop console root description extensions rest (d(i := f')) of
                (d', log, Inl e) \<Rightarrow> (d', out @ log, Inl e)
              | (d', log, Inr count) \<Rightarrow>
                  (d', out @ log, Inr ((if modified then 1 else 0) + count))))
      else files_loop console root description extensions rest d)"

fun walk :: "console \<Rightarrow> str \<Rightarrow> str \<Rightarrow> str list \<Rightarrow> dir \<Rightarrow> disk
    \<Rightarrow> disk \<times> str list \<times> (exn + nat)"
and walk_dirs :: "console \<Rightarrow> str \<Rightarrow> str \<Rightarrow> str list \<Rightarrow> (str \<times> dir) list \<Rightarrow> disk
    \<Rightarrow> disk \<times> str list \<times> (exn + nat)" where
  "walk console root description extensions (Dir files dirs) d =
     (case files_loop console root description extensions files d of
        (d1, log1, Inl e) \<Rightarrow> (d1, log1, Inl e)
      | (d1, log1, Inr count1) \<Rightarrow>
          (case walk_dirs console root description extensions dirs d1 of
             (d2, log2, Inl e) \<Rightarrow> (d2, log1 @ log2, Inl e)
           | (d2, log2, Inr count2) \<Rightarrow> (d2, log1 @ log2, Inr (count1 + count2))))"
| "walk_dirs console root description extensions [] d = (d, [], Inr 0)"
| "walk_dirs console root description extensions ((name, sub) # rest) d =
     (if name \<in> set EXCLUDED
      then walk_dirs console root description extensions rest d
      else
        (case walk console (join root name) description extensions sub d of
           (d1, log1, Inl e) \<Rightarrow> (d1, log1, Inl e)
         | (d1, log1, Inr count1) \<Rightarrow>
             (case walk_dirs console root description extensions rest d1 of
                (d2, log2, Inl e) \<Rightarrow> (d2, log1 @ log2, Inl e)
              | (d2, log2, Inr count2) \<Rightarrow> (d2, log1 @ log2, Inr (count1 + count2)))))"

definition process_directory :: "console \<Rightarrow> target \<Rightarrow> str \<Rightarrow> str \<Rightarrow> str list \<Rightarrow> disk
    \<Rightarrow> disk \<times> str list \<times> (exn + nat)" where
  "process_directory console t directory description extensions d =
     (case t of
        Regular i \<Rightarrow> (d, [], Inr 0)
      | Directory tree \<Rightarrow> walk console directory description extensions tree d)"

section \<open>Notions used to state the properties\<close>

text \<open>
  The header block both templates render to, written out: the fixed text with the file
  name and the description in their places.
\<close>

definition rendered_header :: "str \<Rightarrow> str \<Rightarrow> str" where
  "rendered_header filename description =
     ascii ''/**\<newline> * @file '' @ filename @ ascii ''\<newline> * @description '' @ description
     @ ascii ''\<newline> * @author Tomda\<newline> * @copyright ''
     @ [0x7248, 0x6743, 0x6240, 0x6709] @ ascii '' (c) 2026 UIED'' @ [0x6280, 0x672F, 0x56E2, 0x961F]
     @ ascii ''\<newline> * @website https://fsuied.com\<newline> * @license MIT\<newline> * @version 1.0.0\<newline> */\<newline>\<newline>''"

text \<open>\<open>sub\<close> stands in \<open>s\<close> from position \<open>i\<close> on (positions count from 0).\<close>

definition occurs_at :: "str \<Rightarrow> nat \<Rightarrow> str \<Rightarrow> bool" where
  "occurs_at sub i s = (i + length sub \<le> length s \<and> take (length sub) (drop i s) = sub)"

text \<open>A file name ends with one of the accepted extensions.\<close>

definition accepted :: "str list \<Rightarrow> str \<Rightarrow> bool" where
  "accepted extensions file = list_ex (\<lambda>ext. endswith file ext) extensions"

text \<open>
  The entries a walk from \<open>root\<close> is to hand to the file processor, each as its path
  and the number of the file the path leads to, in the order of the walk: in every
  directory reached without passing through an excluded name, the names with an
  accepted extension.
\<close>

fun selected :: "str list \<Rightarrow> str \<Rightarrow> dir \<Rightarrow> (str \<times> nat) list"
and selected_in :: "str list \<Rightarrow> str \<Rightarrow> (str \<times> dir) list \<Rightarrow> (str \<times> nat) list" where
  "selected extensions root (Dir files dirs) =
     map (\<lambda>(file, i). (join root file, i)) (filter (\<lambda>(file, i). accepted extensions file) files)
     @ selected_in extensions root dirs"
| "selected_in extensions root [] = []"
| "selected_in extensions root ((name, sub) # rest) =
     (if name \<in> set EXCLUDED then [] else selected extensions (join root name) sub)
     @ selected_in extensions root rest"

text \<open>
  The file processor called on a list of entries, one after the other: the calls that
  return \<open>True\<close> are counted, and an exception that leaves a call ends the run.
\<close>

fun process_all :: "console \<Rightarrow> str \<Rightarrow> (str \<times> nat) list \<Rightarrow> disk
    \<Rightarrow> disk \<times> str list \<times> (exn + nat)" where
  "process_all console description [] d = (d, [], Inr 0)"
| "process_all console description ((filepath, i) # rest) d =
     (case add_copyright_to_file console (d i) filepath description of
        (f', out, Inl e) \<Rightarrow> (d(i := f'), out, Inl e)
      | (f', out, Inr modified) \<Rightarrow>
          (case process_all console description rest (d(i := f')) of
             (d', log, Inl e) \<Rightarrow> (d', out @ log, Inl e)
           | (d', log, Inr count) \<Rightarrow>
               (d', out @ log, Inr ((if modified then 1 else 0) + count))))"

text \<open>
  The subtrees under an excluded name that a walk meets, and the tree with each of
  them emptied.
\<close>

fun excluded_parts :: "dir \<Rightarrow> dir list"
and excluded_parts_in :: "(str \<times> dir) list \<Rightarrow> dir list" where
  "excluded_parts (Dir files dirs) = excluded_parts_in dirs"
| "excluded_parts_in [] = []"
| "excluded_parts_in ((name, sub) # rest) =
     (if name \<in> set EXCLUDED then [sub] else excluded_parts sub) @ excluded_parts_in rest"

fun hide_excluded :: "dir \<Rightarrow> dir"
and hide_excluded_in :: "(str \<times> dir) list \<Rightarrow> (str \<times> dir) list" where
  "hide_excluded (Dir files dirs) = Dir files (hide_excluded_in dirs)"
| "hide_excluded_in [] = []"
| "hide_excluded_in ((name, sub) # rest) =
     (name, if name \<in> set EXCLUDED then Dir [] [] else hide_excluded sub) # hide_excluded_in rest"

text \<open>
  A file is settled when no call of the processor can write to it: it cannot be read,
  or it cannot be written, or it does not decode, or it has the marker. A file is at
  rest for a path when it is settled, or it is empty and the header for that path
  cannot be encoded.
\<close>

definition settled :: "disk_file \<Rightarrow> bool" where
  "settled f =
     (read_denied f \<noteq> None \<or> write_denied f \<noteq> None
      \<or> (case stored f of
            Garbage m \<Rightarrow> True
          | Text cs \<Rightarrow> \<not> encodable cs \<or> has_copyright (universal_newlines cs)))"


section \<open>Examples\<close>

text \<open>
  Two consoles: one that takes every line (a stream with a lenient error handler), and
  one that encodes strictly in UTF-8 and so refuses a line with a surrogate.
\<close>

definition lenient_console :: console where
  "lenient_console line = None"

definition utf8_console :: console where
  "utf8_console line = (if encodable line then None else Some (encode_error line))"

text \<open>
  The \<open>PermissionError\<close> of an open, as a function of the path. Its text shows the
  path as \<open>repr\<close> does, which is the path between quotes when the path is made of
  printable characters other than the quote and the backslash; the examples use it with
  such paths only.
\<close>

definition permission_denied :: "str \<Rightarrow> exn" where
  "permission_denied filepath =
     OSError (ascii ''[Errno 13] Permission denied: '' @ [0x27] @ filepath @ [0x27])"

text \<open>
  A script file without a header, a text file, a module, a style sheet that carries a
  copyright tag, a file with Windows line ends, a file whose bytes are not UTF-8, a
  file that may be read but not written, and a file that may not be read.
\<close>

definition widget :: disk_file where
  "widget = \<lparr>stored = Text (ascii ''export const x = 1;''), read_denied = None, write_denied = None\<rparr>"

definition memo :: disk_file where
  "memo = \<lparr>stored = Text (ascii ''to do''), read_denied = None, write_denied = None\<rparr>"

definition module_file :: disk_file where
  "module_file = \<lparr>stored = Text (ascii ''module.exports = 1;''), read_denied = None, write_denied = None\<rparr>"

definition styles :: disk_file where
  "styles = \<lparr>stored = Text (ascii ''/* @copyright ACME */ body {}''), read_denied = None,
              write_denied = None\<rparr>"

definition crlf :: disk_file where
  "crlf = \<lparr>stored = Text (ascii ''a'' @ [13, 10] @ ascii ''b''), read_denied = None,
            write_denied = None\<rparr>"

definition garbled :: disk_file where
  "garbled =
     \<lparr>stored = Garbage ([0x27] @ ascii ''utf-8'' @ [0x27] @ ascii '' codec can'' @ [0x27]
                         @ ascii ''t decode byte 0xff in position 0: invalid start byte''),
      read_denied = None, write_denied = None\<rparr>"

definition locked :: disk_file where
  "locked = \<lparr>stored = Text (ascii ''let y = 2;''), read_denied = None,
              write_denied = Some permission_denied\<rparr>"

definition unreadable :: disk_file where
  "unreadable = \<lparr>stored = Text (ascii ''let z = 3;''), read_denied = Some permission_denied,
                  write_denied = None\<rparr>"

text \<open>
  A disk with these files, and a small project on it: a script and a text file at the
  top, a dependency directory, and a directory with a style sheet that has a header
  and a file that does not decode.
\<close>

definition shelf :: disk where
  "shelf = (\<lambda>i. widget)(1 := memo, 2 := module_file, 3 := styles, 4 := garbled, 5 := unreadable)"

definition project :: dir where
  "project =
     Dir [(ascii ''widget.tsx'', 0), (ascii ''notes.md'', 1)]
         [(ascii ''node_modules'', Dir [(ascii ''index.ts'', 2)] []),
          (ascii ''theme'', Dir [(ascii ''styles.css'', 3), (ascii ''g.ts'', 4)] [])]"

definition annotated_widget :: disk_file where
  "annotated_widget =
     widget\<lparr>stored := Text (rendered_header (ascii ''widget.tsx'') (ascii ''d'')
                             @ ascii ''export const x = 1;'')\<rparr>"

definition web_extensions :: "str list" where
  "web_extensions = [ascii ''.tsx'', ascii ''.ts'', ascii ''.css'']"

text \<open>
  The same dependency directory, with a second name for its module at the top; a text
  file with a second name that has an accepted extension; a script whose name does
  not decode, which \<open>os.walk\<close> hands over with a lone surrogate, before another script.
\<close>

definition linked_project :: dir where
  "linked_project =
     Dir [(ascii ''alias.ts'', 2)] [(ascii ''node_modules'', Dir [(ascii ''index.ts'', 2)] [])]"

definition renamed_memo :: dir where
  "renamed_memo = Dir [(ascii ''notes.md'', 1), (ascii ''notes.ts'', 1)] []"

definition odd_name :: str where
  "odd_name = [0xDC80] @ ascii ''.ts''"

definition odd_project :: dir where
  "odd_project = Dir [(odd_name, 0), (ascii ''notes.ts'', 1)] []"

text \<open>
  The module and the text file once the header has been written through their second
  names.
\<close>

definition annotated_module :: disk_file where
  "annotated_module =
     module_file\<lparr>stored := Text (rendered_header (ascii ''alias.ts'') (ascii ''d'')
                                  @ ascii ''module.exports = 1;'')\<rparr>"

definition annotated_memo :: disk_file where
  "annotated_memo =
     memo\<lparr>stored := Text (rendered_header (ascii ''notes.ts'') (ascii ''d'') @ ascii ''to do'')\<rparr>"

section \<open>Rendering\<close>

lemma templates_equal: "CSS_COPYRIGHT = TS_COPYRIGHT"
  by (simp add: CSS_COPYRIGHT_def TS_COPYRIGHT_def)

lemma render_ts:
  "format TS_COPYRIGHT [(ascii ''filename'', filename), (ascii ''description'', description)]
     = Inr (rendered_header filename description)"
  by (simp add: format_def TS_COPYRIGHT_def ascii_def rendered_header_def lbrace_def rbrace_def
        field_value_def plain_name_def numbered_def prepend_def)

lemma render_css:
  "format CSS_COPYRIGHT [(ascii ''filename'', filename), (ascii ''description'', description)]
     = Inr (rendered_header filename description)"
  by (simp only: templates_equal render_ts)

section \<open>Substring search\<close>

lemma contains_iff: "contains sub s \<longleftrightarrow> (\<exists>i. occurs_at sub i s)"
proof (induction s)
  case Nil
  show ?case by (auto simp: occurs_at_def)
next
  case (Cons c cs)
  have "(\<exists>i. occurs_at sub i (c # cs))
        \<longleftrightarrow> occurs_at sub 0 (c # cs) \<or> (\<exists>i. occurs_at sub (Suc i) (c # cs))"
    by (metis not0_implies_Suc)
  moreover have "occurs_at sub 0 (c # cs) \<longleftrightarrow> startswith (c # cs) sub"
    unfolding occurs_at_def startswith_def
    by (metis add_0 drop0 length_take min.absorb_iff2 nat_le_linear take_all)
  moreover have "\<And>i. occurs_at sub (Suc i) (c # cs) \<longleftrightarrow> occurs_at sub i cs"
    by (simp add: occurs_at_def)
  ultimately show ?case using Cons by simp
qed

lemma occurs_at_take:
  "occurs_at sub i (take n s) \<longleftrightarrow> i + length sub \<le> n \<and> occurs_at sub i s"
proof (cases "i + length sub \<le> n")
  case True
  then have "take (length sub) (drop i (take n s)) = take (length sub) (drop i s)"
    by (simp add: drop_take min_def)
  with True show ?thesis by (simp add: occurs_at_def)
next
  case False
  then show ?thesis by (simp add: occurs_at_def)
qed

lemma contains_window:
  "contains sub (take n s) \<longleftrightarrow> (\<exists>i. i + length sub \<le> n \<and> occurs_at sub i s)"
  by (simp add: contains_iff occurs_at_take)

section \<open>The marker in a rendered header\<close>

lemma universal_newlines_Cons:
  "c \<noteq> 13 \<Longrightarrow> universal_newlines (c # cs) = c # universal_newlines cs"
  by (cases cs) simp_all

lemma has_copyright_tagged: "has_copyright (ascii ''/**\<newline> * @file '' @ rest)"
  by (simp add: has_copyright_def ascii_def startswith_def)

lemma universal_newlines_tagged:
  "universal_newlines (ascii ''/**\<newline> * @file '' @ rest)
     = ascii ''/**\<newline> * @file '' @ universal_newlines rest"
  by (simp add: ascii_def universal_newlines_Cons)

lemma rendered_header_tagged:
  "rendered_header filename description @ content
     = ascii ''/**\<newline> * @file ''
       @ (filename @ drop 13 (rendered_header [] description) @ content)"
  by (simp add: rendered_header_def ascii_def)

lemma has_copyright_rendered: "has_copyright (rendered_header filename description @ content)"
  by (simp only: rendered_header_tagged has_copyright_tagged)

lemma has_copyright_rendered_read:
  "has_copyright (universal_newlines (rendered_header filename description @ content))"
  by (simp only: rendered_header_tagged universal_newlines_tagged has_copyright_tagged)

lemma startswith_rendered:
  "startswith (rendered_header filename description) (ascii ''/**\<newline> * @file '')"
  by (simp add: startswith_def rendered_header_def ascii_def)

section \<open>Reading with universal newlines\<close>

lemma universal_newlines_append:
  "ys = [] \<or> hd ys \<noteq> 10 \<Longrightarrow>
     universal_newlines (xs @ ys) = universal_newlines xs @ universal_newlines ys"
proof (induction xs rule: universal_newlines.induct)
  case 1
  show ?case by simp
next
  case (2 c)
  then show ?case by (cases ys) auto
next
  case (3 c d cs)
  then show ?case by simp
qed

lemma universal_newlines_plain:
  "13 \<notin> set m \<Longrightarrow> universal_newlines (m @ ys) = m @ universal_newlines ys"
  by (induction m) (simp_all add: universal_newlines_Cons)

lemma length_universal_newlines: "length (universal_newlines s) \<le> length s"
  by (induction s rule: universal_newlines.induct) auto

lemma occurs_at_split:
  "occurs_at m i s \<longleftrightarrow> (\<exists>pre post. s = pre @ m @ post \<and> length pre = i)"
proof
  assume h: "occurs_at m i s"
  then have "s = take i s @ m @ drop (i + length m) s"
    by (metis add.commute append_take_drop_id drop_drop occurs_at_def)
  moreover have "length (take i s) = i" using h by (simp add: occurs_at_def)
  ultimately show "\<exists>pre post. s = pre @ m @ post \<and> length pre = i" by blast
next
  assume "\<exists>pre post. s = pre @ m @ post \<and> length pre = i"
  then show "occurs_at m i s" by (auto simp: occurs_at_def)
qed

lemma occurs_at_read:
  assumes "occurs_at m i raw" "13 \<notin> set m" "m \<noteq> []" "hd m \<noteq> 10"
  shows "\<exists>j\<le>i. occurs_at m j (universal_newlines raw)"
proof -
  from assms(1) obtain pre post where s: "raw = pre @ m @ post" and l: "length pre = i"
    unfolding occurs_at_split by blast
  have "hd (m @ post) \<noteq> 10" using assms(3,4) by simp
  then have "universal_newlines raw = universal_newlines pre @ m @ universal_newlines post"
    using assms(2) by (simp add: s universal_newlines_append universal_newlines_plain)
  then have "occurs_at m (length (universal_newlines pre)) (universal_newlines raw)"
    unfolding occurs_at_split by blast
  moreover have "length (universal_newlines pre) \<le> i"
    using l length_universal_newlines by blast
  ultimately show ?thesis by blast
qed

lemma contains_window_read:
  assumes "contains m (take n raw)" "13 \<notin> set m" "m \<noteq> []" "hd m \<noteq> 10"
  shows "contains m (take n (universal_newlines raw))"
proof -
  from assms(1) obtain i where i: "i + length m \<le> n" "occurs_at m i raw"
    unfolding contains_window by blast
  from occurs_at_read[OF i(2) assms(2-4)] obtain j
    where "j \<le> i" "occurs_at m j (universal_newlines raw)" by blast
  with i(1) show ?thesis unfolding contains_window by (metis add_le_mono1 le_trans)
qed

lemma has_copyright_read: "has_copyright raw \<Longrightarrow> has_copyright (universal_newlines raw)"
  unfolding has_copyright_def
  by (auto intro!: contains_window_read simp: ascii_def)

section \<open>The cases of the file processor\<close>

lemma read_text_Inr:
  "read_text f filepath = Inr content \<longleftrightarrow>
     read_denied f = None
     \<and> (\<exists>raw. stored f = Text raw \<and> encodable raw \<and> content = universal_newlines raw)"
  by (auto simp: read_text_def split: option.splits stored.splits)

lemma read_text_any_path:
  "read_text f filepath = Inr content \<Longrightarrow> read_text f filepath' = Inr content"
  unfolding read_text_Inr .

lemma universal_newlines_id: "13 \<notin> set s \<Longrightarrow> universal_newlines s = s"
  using universal_newlines_plain[of s "[]"] by simp

lemma write_text_cases:
  "write_text f filepath s = (f', r) \<Longrightarrow>
     (r = None \<and> f' = f\<lparr>stored := Text s\<rparr> \<and> write_denied f = None \<and> encodable s)
   \<or> (\<exists>refusal. r = Some (refusal filepath) \<and> write_denied f = Some refusal \<and> f' = f)
   \<or> (r = Some (encode_error s) \<and> write_denied f = None \<and> \<not> encodable s
        \<and> f' = f\<lparr>stored := Text []\<rparr>)"
  by (auto simp: write_text_def split: option.splits if_splits)

lemma try_body_read_failure:
  "read_text f filepath = Inl e \<Longrightarrow> try_body console f filepath description = (f, [], Inl e)"
  by (simp add: try_body_def)

lemma try_body_skip:
  "read_text f filepath = Inr content \<Longrightarrow> has_copyright content \<Longrightarrow>
     try_body console f filepath description =
       (case console (skipped filepath) of
          Some e \<Rightarrow> (f, [], Inl e)
        | None \<Rightarrow> (f, [skipped filepath], Inr False))"
  by (simp add: try_body_def)

lemma try_body_write:
  "read_text f filepath = Inr content \<Longrightarrow> \<not> has_copyright content \<Longrightarrow>
     try_body console f filepath description =
       (case write_text f filepath (rendered_header (basename filepath) description @ content) of
          (f', Some e) \<Rightarrow> (f', [], Inl e)
        | (f', None) \<Rightarrow>
            (case console (added filepath) of
               Some e \<Rightarrow> (f', [], Inl e)
             | None \<Rightarrow> (f', [added filepath], Inr True)))"
  by (simp add: try_body_def Let_def render_ts render_css)

lemma try_body_no_output_on_exception:
  "try_body console f filepath description = (f', out, Inl e) \<Longrightarrow> out = []"
  by (auto simp: try_body_def Let_def render_ts render_css
      split: sum.splits option.splits prod.splits if_splits)

lemma handler:
  "try_body console f filepath description = (f', out, Inl e) \<Longrightarrow>
     add_copyright_to_file console f filepath description =
       (case console (failed filepath e) of
          Some e' \<Rightarrow> (f', [], Inl e')
        | None \<Rightarrow> (f', [failed filepath e], Inr False))"
  by (frule try_body_no_output_on_exception) (simp add: add_copyright_to_file_def split: option.splits)

lemma no_handler:
  "try_body console f filepath description = (f', out, Inr r) \<Longrightarrow>
     add_copyright_to_file console f filepath description = (f', out, Inr r)"
  by (simp add: add_copyright_to_file_def)


lemma add_True:
  assumes "add_copyright_to_file console f filepath description = (f', out, Inr True)"
  shows "\<exists>content. read_text f filepath = Inr content \<and> \<not> has_copyright content
           \<and> write_text f filepath (rendered_header (basename filepath) description @ content)
               = (f', None)
           \<and> console (added filepath) = None \<and> out = [added filepath]"
proof -
  obtain g o' r where t: "try_body console f filepath description = (g, o', r)"
    by (cases "try_body console f filepath description")
  show ?thesis
  proof (cases r)
    case (Inl e)
    with t assms show ?thesis by (simp add: handler split: option.splits)
  next
    case (Inr b)
    with t assms have tb: "try_body console f filepath description = (f', out, Inr True)"
      by (simp add: no_handler)
    show ?thesis
    proof (cases "read_text f filepath")
      case (Inl e)
      with tb show ?thesis by (simp add: try_body_read_failure)
    next
      case c: (Inr content)
      show ?thesis
      proof (cases "has_copyright content")
        case True
        with c tb show ?thesis by (simp add: try_body_skip split: option.splits)
      next
        case False
        with c tb show ?thesis
          by (auto simp: try_body_write split: prod.splits option.splits)
      qed
    qed
  qed
qed

lemma encodable_ascii: "encodable (ascii s)"
  unfolding encodable_def ascii_def list_all_iff surrogate_def
proof
  fix c :: nat assume "c \<in> set (map of_char s)"
  then obtain x :: char where "c = of_char x" by auto
  moreover have "(of_char x :: nat) < 256" by simp
  ultimately show "\<not> (0xD800 \<le> c \<and> c \<le> 0xDFFF)" by arith
qed

lemma encodable_append: "encodable (a @ b) \<longleftrightarrow> encodable a \<and> encodable b"
  by (simp add: encodable_def)

lemma encodable_rendered:
  "encodable (rendered_header filename description) \<longleftrightarrow> encodable filename \<and> encodable description"
  unfolding rendered_header_def encodable_append
  by (auto simp: encodable_ascii) (simp_all add: encodable_def surrogate_def)



lemma read_after_write:
  assumes "read_text f filepath = Inr content" and "write_text f filepath s = (f', None)"
  shows "read_text f' filepath' = Inr (universal_newlines s)"
proof -
  from assms(2) have "f' = f\<lparr>stored := Text s\<rparr>" "encodable s"
    using write_text_cases by fastforce+
  moreover from assms(1) have "read_denied f = None" unfolding read_text_Inr by blast
  ultimately show ?thesis by (simp add: read_text_def)
qed

section \<open>Files at rest\<close>

lemma settled_iff:
  "settled f \<longleftrightarrow>
     write_denied f \<noteq> None
     \<or> (case read_text f filepath of Inl e \<Rightarrow> True | Inr content \<Rightarrow> has_copyright content)"
  by (auto simp: settled_def read_text_def split: option.splits stored.splits)

lemma settled_fixed:
  assumes "settled f"
  shows "fst (add_copyright_to_file console f filepath description) = f
       \<and> snd (snd (add_copyright_to_file console f filepath description)) \<noteq> Inr True"
proof (cases "read_text f filepath")
  case (Inl e)
  then show ?thesis
    by (simp add: handler[OF try_body_read_failure] split: option.splits)
next
  case (Inr content)
  show ?thesis
  proof (cases "has_copyright content")
    case True
    with Inr show ?thesis
      by (auto simp: add_copyright_to_file_def try_body_skip split: option.splits)
  next
    case False
    with Inr assms obtain refusal where "write_denied f = Some refusal"
      using settled_iff[of f filepath] by auto
    then have "write_text f filepath (rendered_header (basename filepath) description @ content)
                 = (f, Some (refusal filepath))"
      by (simp add: write_text_def)
    with Inr False show ?thesis
      by (auto simp: add_copyright_to_file_def try_body_write split: option.splits)
  qed
qed







section \<open>A walk as a list of calls\<close>

lemma process_all_append:
  "process_all console description (xs @ ys) d =
     (case process_all console description xs d of
        (d1, log1, Inl e) \<Rightarrow> (d1, log1, Inl e)
      | (d1, log1, Inr count1) \<Rightarrow>
          (case process_all console description ys d1 of
             (d2, log2, Inl e) \<Rightarrow> (d2, log1 @ log2, Inl e)
           | (d2, log2, Inr count2) \<Rightarrow> (d2, log1 @ log2, Inr (count1 + count2))))"
proof (induction xs arbitrary: d)
  case Nil
  show ?case by (simp split: prod.splits sum.splits)
next
  case (Cons x xs)
  obtain filepath i where x: "x = (filepath, i)" by (cases x)
  show ?case
    unfolding x append_Cons process_all.simps Cons.IH
    by (simp split: prod.splits sum.splits)
qed

lemma files_loop_flat:
  "files_loop console root description extensions files d =
     process_all console description
       (map (\<lambda>(name, i). (join root name, i)) (filter (\<lambda>(name, i). accepted extensions name) files)) d"
proof (induction files arbitrary: d)
  case Nil
  show ?case by simp
next
  case (Cons x files)
  obtain name i where x: "x = (name, i)" by (cases x)
  show ?case
  proof (cases "accepted extensions name")
    case True
    then have a: "list_ex (\<lambda>ext. endswith name ext) extensions" by (simp add: accepted_def)
    obtain f' out r where
      c: "add_copyright_to_file console (d i) (join root name) description = (f', out, r)"
      by (cases "add_copyright_to_file console (d i) (join root name) description")
    show ?thesis
    proof (cases r)
      case (Inl e)
      with True a c show ?thesis by (simp add: x)
    next
      case (Inr modified)
      with True a c show ?thesis by (simp add: x Cons.IH fun_upd_def)
    qed
  next
    case False
    then have "\<not> list_ex (\<lambda>ext. endswith name ext) extensions" by (simp add: accepted_def)
    with False show ?thesis by (simp add: x Cons.IH)
  qed
qed

lemma walk_flat:
  "walk console root description extensions tree d
     = process_all console description (selected extensions root tree) d"
  and walk_dirs_flat:
  "walk_dirs console root description extensions dirs d
     = process_all console description (selected_in extensions root dirs) d"
proof (induction console root description extensions tree d
         and console root description extensions dirs d rule: walk_walk_dirs.induct)
  case (1 console root description extensions files dirs d)
  show ?case
    unfolding walk.simps selected.simps process_all_append files_loop_flat
    by (auto simp: "1.IH" files_loop_flat split: prod.splits sum.splits)
next
  case (2 console root description extensions d)
  show ?case by simp
next
  case (3 console root description extensions name sub rest d)
  show ?case
  proof (cases "name \<in> set EXCLUDED")
    case True
    with "3.IH"(1) show ?thesis by simp
  next
    case False
    show ?thesis
      unfolding walk_dirs.simps selected_in.simps process_all_append
      using False by (auto simp: "3.IH"(2,3) split: prod.splits sum.splits)
  qed
qed

lemma process_directory_flat:
  "process_directory console (Directory tree) directory description extensions d
     = process_all console description (selected extensions directory tree) d"
  by (simp add: process_directory_def walk_flat)

section \<open>Runs of calls\<close>

lemma process_all_raise:
  "add_copyright_to_file console (d i) filepath description = (f', out, Inl e) \<Longrightarrow>
     process_all console description ((filepath, i) # rest) d = (d(i := f'), out, Inl e)"
  by simp

lemma process_all_return:
  "add_copyright_to_file console (d i) filepath description = (f', out, Inr modified) \<Longrightarrow>
   process_all console description rest (d(i := f')) = (d', log, r) \<Longrightarrow>
     process_all console description ((filepath, i) # rest) d =
       (d', out @ log,
        case r of Inl e \<Rightarrow> Inl e | Inr count \<Rightarrow> Inr ((if modified then 1 else 0) + count))"
  by (cases r) simp_all

lemma process_all_frame:
  "i \<notin> snd ` set entries \<Longrightarrow>
     fst (process_all console description entries d) i = d i
     \<and> process_all console description entries (d(i := g))
         = (case process_all console description entries d of
              (d', log, r) \<Rightarrow> (d'(i := g), log, r))"
proof (induction entries arbitrary: d)
  case Nil
  show ?case by simp
next
  case (Cons x entries)
  obtain filepath j where x: "x = (filepath, j)" by (cases x)
  with Cons.prems have ne: "j \<noteq> i" and rest: "i \<notin> snd ` set entries" by auto
  obtain f' out r where c: "add_copyright_to_file console (d j) filepath description = (f', out, r)"
    by (cases "add_copyright_to_file console (d j) filepath description")
  from ne c have cg: "add_copyright_to_file console ((d(i := g)) j) filepath description = (f', out, r)"
    by simp
  have sw: "(d(i := g))(j := f') = (d(j := f'))(i := g)" using ne by (simp add: fun_upd_twist)
  show ?case
  proof (cases r)
    case (Inl e)
    from c Inl have 1: "process_all console description (x # entries) d = (d(j := f'), out, Inl e)"
      unfolding x by (simp add: process_all_raise[where d = d and i = j])
    from cg Inl have 2: "process_all console description (x # entries) (d(i := g))
                          = ((d(i := g))(j := f'), out, Inl e)"
      unfolding x by (simp add: process_all_raise[where d = "d(i := g)" and i = j])
    from ne have "(d(j := f')) i = d i" by simp
    then show ?thesis by (simp only: 1 2 sw prod.case fst_conv simp_thms)
  next
    case (Inr modified)
    obtain d' log r' where p: "process_all console description entries (d(j := f')) = (d', log, r')"
      by (cases "process_all console description entries (d(j := f'))")
    have ih: "fst (process_all console description entries (d(j := f'))) i = (d(j := f')) i
        \<and> process_all console description entries ((d(j := f'))(i := g))
            = (case process_all console description entries (d(j := f')) of
                 (d', log, r) \<Rightarrow> (d'(i := g), log, r))"
      by (rule Cons.IH[OF rest])
    from ne have "(d(j := f')) i = d i" by simp
    with ih have i1: "d' i = d i"
      and i2: "process_all console description entries ((d(j := f'))(i := g)) = (d'(i := g), log, r')"
      by (simp_all only: p prod.case fst_conv)
    from process_all_return[where d = d and i = j, OF c[unfolded Inr] p]
    have 1: "process_all console description (x # entries) d =
       (d', out @ log,
        case r' of Inl e \<Rightarrow> Inl e | Inr count \<Rightarrow> Inr ((if modified then 1 else 0) + count))"
      unfolding x .
    from process_all_return[where d = "d(i := g)" and i = j, OF cg[unfolded Inr] i2[folded sw]]
    have 2: "process_all console description (x # entries) (d(i := g)) =
       (d'(i := g), out @ log,
        case r' of Inl e \<Rightarrow> Inl e | Inr count \<Rightarrow> Inr ((if modified then 1 else 0) + count))"
      unfolding x .
    from i1 show ?thesis by (simp only: 1 2 prod.case fst_conv simp_thms)
  qed
qed

lemma process_all_cases:
  obtains (raise) f' out e where
      "add_copyright_to_file console (d i) filepath description = (f', out, Inl e)"
      "process_all console description ((filepath, i) # rest) d = (d(i := f'), out, Inl e)"
  | (return) f' out modified d' log r where
      "add_copyright_to_file console (d i) filepath description = (f', out, Inr modified)"
      "process_all console description rest (d(i := f')) = (d', log, r)"
      "process_all console description ((filepath, i) # rest) d =
         (d', out @ log,
          case r of Inl e \<Rightarrow> Inl e | Inr count \<Rightarrow> Inr ((if modified then 1 else 0) + count))"
proof -
  obtain f' out r where c: "add_copyright_to_file console (d i) filepath description = (f', out, r)"
    by (cases "add_copyright_to_file console (d i) filepath description")
  show ?thesis
  proof (cases r)
    case (Inl e)
    with c raise[of f' out e] process_all_raise[where d = d and i = i] show ?thesis by blast
  next
    case (Inr modified)
    obtain d' log r' where p: "process_all console description rest (d(i := f')) = (d', log, r')"
      by (cases "process_all console description rest (d(i := f'))")
    from return[OF c[unfolded Inr] p process_all_return[where d = d and i = i, OF c[unfolded Inr] p]]
    show ?thesis .
  qed
qed






section \<open>The examples, evaluated\<close>

lemma encodable_skipped: "encodable (skipped filepath) \<longleftrightarrow> encodable filepath"
  unfolding skipped_def encodable_append
  by (auto simp: encodable_ascii) (simp_all add: encodable_def surrogate_def)

lemma encodable_added: "encodable (added filepath) \<longleftrightarrow> encodable filepath"
  unfolding added_def encodable_append
  by (auto simp: encodable_ascii) (simp_all add: encodable_def surrogate_def)

lemma encodable_failed:
  "encodable (failed filepath e) \<longleftrightarrow> encodable filepath \<and> encodable (message e)"
  unfolding failed_def encodable_append
  by (auto simp: encodable_ascii) (simp_all add: encodable_def surrogate_def)

lemma encodable_Cons: "encodable (c # cs) \<longleftrightarrow> \<not> surrogate c \<and> encodable cs"
  by (simp add: encodable_def)

lemma utf8_console_takes: "encodable line \<Longrightarrow> utf8_console line = None"
  by (simp add: utf8_console_def)

lemma utf8_console_refuses: "\<not> encodable line \<Longrightarrow> utf8_console line = Some (encode_error line)"
  by (simp add: utf8_console_def)

lemma encodable_permission_denied: "encodable (message (permission_denied filepath)) \<longleftrightarrow> encodable filepath"
  unfolding permission_denied_def message.simps encodable_append
  by (auto simp: encodable_ascii) (simp_all add: encodable_def surrogate_def)

lemma read_widget: "read_text widget filepath = Inr (ascii ''export const x = 1;'')"
  by (simp add: read_text_def widget_def encodable_def surrogate_def ascii_def)

lemma unmarked_widget: "\<not> has_copyright (ascii ''export const x = 1;'')"
  by (simp add: has_copyright_def ascii_def startswith_def)

lemma read_memo: "read_text memo filepath = Inr (ascii ''to do'')"
  by (simp add: read_text_def memo_def encodable_def surrogate_def ascii_def)

lemma unmarked_memo: "\<not> has_copyright (ascii ''to do'')"
  by (simp add: has_copyright_def ascii_def startswith_def)

lemma read_module: "read_text module_file filepath = Inr (ascii ''module.exports = 1;'')"
  by (simp add: read_text_def module_file_def encodable_def surrogate_def ascii_def)

lemma unmarked_module: "\<not> has_copyright (ascii ''module.exports = 1;'')"
  by (simp add: has_copyright_def ascii_def startswith_def)

lemma read_styles: "read_text styles filepath = Inr (ascii ''/* @copyright ACME */ body {}'')"
  by (simp add: read_text_def styles_def encodable_def surrogate_def ascii_def)

lemma marked_styles: "has_copyright (ascii ''/* @copyright ACME */ body {}'')"
  by (simp add: has_copyright_def ascii_def startswith_def)

lemma read_crlf: "read_text crlf filepath = Inr (ascii ''a'' @ [10] @ ascii ''b'')"
  by (simp add: read_text_def crlf_def encodable_def surrogate_def ascii_def)

lemma read_garbled:
  "read_text garbled filepath
     = Inl (UnicodeDecodeError ([0x27] @ ascii ''utf-8'' @ [0x27] @ ascii '' codec can'' @ [0x27]
              @ ascii ''t decode byte 0xff in position 0: invalid start byte''))"
  by (simp add: read_text_def garbled_def)

lemma read_unreadable: "read_text unreadable filepath = Inl (permission_denied filepath)"
  by (simp add: read_text_def unreadable_def)

lemma locked_refuses: "write_denied locked = Some permission_denied"
  by (simp add: locked_def)

lemma basenames:
  "basename (ascii ''src/widget.tsx'') = ascii ''widget.tsx''"
  "basename (ascii ''src/w.ts'') = ascii ''w.ts''"
  "basename (ascii ''src/a{b}.ts'') = ascii ''a{b}.ts''"
  "basename (ascii ''src/alias.ts'') = ascii ''alias.ts''"
  "basename (ascii ''src/notes.ts'') = ascii ''notes.ts''"
  by (simp_all add: basename_def ascii_def slash_def)

lemma basename_odd: "basename (join (ascii ''src'') odd_name) = odd_name"
  by (simp add: basename_def join_def startswith_def endswith_def odd_name_def ascii_def slash_def)

lemma joined_paths:
  "join (ascii ''src'') (ascii ''widget.tsx'') = ascii ''src/widget.tsx''"
  "join (ascii ''src'') (ascii ''theme'') = ascii ''src/theme''"
  "join (ascii ''src/theme'') (ascii ''styles.css'') = ascii ''src/theme/styles.css''"
  "join (ascii ''src/theme'') (ascii ''g.ts'') = ascii ''src/theme/g.ts''"
  "join (ascii ''src'') (ascii ''g.ts'') = ascii ''src/g.ts''"
  "join (ascii ''src'') (ascii ''alias.ts'') = ascii ''src/alias.ts''"
  "join (ascii ''src'') (ascii ''notes.ts'') = ascii ''src/notes.ts''"
  by (simp_all add: join_def startswith_def endswith_def ascii_def slash_def)

lemma accepted_names:
  "list_ex (\<lambda>ext. endswith (ascii ''widget.tsx'') ext) web_extensions"
  "\<not> list_ex (\<lambda>ext. endswith (ascii ''notes.md'') ext) web_extensions"
  "list_ex (\<lambda>ext. endswith (ascii ''styles.css'') ext) web_extensions"
  "list_ex (\<lambda>ext. endswith (ascii ''g.ts'') ext) web_extensions"
  "list_ex (\<lambda>ext. endswith (ascii ''alias.ts'') ext) web_extensions"
  "list_ex (\<lambda>ext. endswith (ascii ''notes.ts'') ext) web_extensions"
  "list_ex (\<lambda>ext. endswith odd_name ext) web_extensions"
  by (simp_all add: web_extensions_def endswith_def odd_name_def ascii_def)

lemma excluded_names:
  "ascii ''node_modules'' \<in> set EXCLUDED" "ascii ''theme'' \<notin> set EXCLUDED"
  by (simp_all add: EXCLUDED_def ascii_def)

text \<open>A call that annotates, on a console that takes the line.\<close>

lemma annotating_call:
  assumes "read_text f filepath = Inr content" and "\<not> has_copyright content"
      and "write_denied f = None"
      and "encodable (rendered_header (basename filepath) description @ content)"
      and "console (added filepath) = None"
  shows "add_copyright_to_file console f filepath description
           = (f\<lparr>stored := Text (rendered_header (basename filepath) description @ content)\<rparr>,
              [added filepath], Inr True)"
proof -
  from assms(3,4) have "write_text f filepath (rendered_header (basename filepath) description @ content)
      = (f\<lparr>stored := Text (rendered_header (basename filepath) description @ content)\<rparr>, None)"
    by (simp add: write_text_def)
  with assms(5) have "try_body console f filepath description
           = (f\<lparr>stored := Text (rendered_header (basename filepath) description @ content)\<rparr>,
              [added filepath], Inr True)"
    by (simp add: try_body_write[OF assms(1,2)])
  then show ?thesis by (rule no_handler)
qed

lemma skipping_call:
  assumes "read_text f filepath = Inr content" and "has_copyright content"
      and "console (skipped filepath) = None"
  shows "add_copyright_to_file console f filepath description = (f, [skipped filepath], Inr False)"
  by (rule no_handler) (simp add: try_body_skip[OF assms(1,2)] assms(3))

lemma failing_read_call:
  assumes "read_text f filepath = Inl e" and "console (failed filepath e) = None"
  shows "add_copyright_to_file console f filepath description = (f, [failed filepath e], Inr False)"
  by (simp add: handler[OF try_body_read_failure[OF assms(1)]] assms(2))

lemma call_widget:
  "add_copyright_to_file utf8_console widget (ascii ''src/widget.tsx'') (ascii ''d'')
     = (annotated_widget, [added (ascii ''src/widget.tsx'')], Inr True)"
  unfolding annotated_widget_def basenames(1)[symmetric]
  by (rule annotating_call[OF read_widget unmarked_widget])
     (simp_all add: widget_def basenames encodable_append encodable_rendered encodable_ascii
        utf8_console_takes encodable_added)

lemma call_styles:
  "add_copyright_to_file utf8_console styles (ascii ''src/theme/styles.css'') (ascii ''d'')
     = (styles, [skipped (ascii ''src/theme/styles.css'')], Inr False)"
  by (rule skipping_call[OF read_styles marked_styles])
     (simp add: utf8_console_takes encodable_skipped encodable_ascii)

lemma call_garbled:
  "add_copyright_to_file utf8_console garbled (ascii ''src/theme/g.ts'') (ascii ''d'')
     = (garbled,
        [failed (ascii ''src/theme/g.ts'')
           (UnicodeDecodeError ([0x27] @ ascii ''utf-8'' @ [0x27] @ ascii '' codec can'' @ [0x27]
              @ ascii ''t decode byte 0xff in position 0: invalid start byte''))],
        Inr False)"
  by (rule failing_read_call[OF read_garbled])
     (simp add: utf8_console_takes encodable_failed encodable_ascii encodable_append
        encodable_Cons surrogate_def)

lemma call_unreadable:
  "add_copyright_to_file utf8_console unreadable (ascii ''src/g.ts'') (ascii ''d'')
     = (unreadable, [failed (ascii ''src/g.ts'') (permission_denied (ascii ''src/g.ts''))], Inr False)"
  by (rule failing_read_call[OF read_unreadable])
     (simp add: utf8_console_takes encodable_failed encodable_permission_denied encodable_ascii)

lemma odd_path: "\<not> encodable (join (ascii ''src'') odd_name)"
  by (simp add: join_def startswith_def endswith_def odd_name_def ascii_def slash_def
      encodable_def surrogate_def)

section \<open>A console that refuses what it cannot encode\<close>













section \<open>Properties of the header detector and of the templates\<close>

text \<open>
  C4. \<open>has_copyright\<close> is true exactly when \<open>@file\<close> or \<open>@copyright\<close> stands in the
  content at a position \<open>i\<close> such that the whole tag lies within the first 500
  characters (\<open>i + length tag \<le> 500\<close>); an occurrence that starts at position 500 or
  later, or that reaches beyond the window, does not count. The answer depends on the
  first 500 characters only, and it is a truth value for every string.
\<close>

theorem has_copyright_window:
  "(has_copyright content \<longleftrightarrow>
      (\<exists>i. i + length (ascii ''@file'') \<le> 500 \<and> occurs_at (ascii ''@file'') i content)
    \<or> (\<exists>i. i + length (ascii ''@copyright'') \<le> 500 \<and> occurs_at (ascii ''@copyright'') i content))
   \<and> has_copyright content = has_copyright (take 500 content)"
proof
  show "has_copyright content \<longleftrightarrow>
      (\<exists>i. i + length (ascii ''@file'') \<le> 500 \<and> occurs_at (ascii ''@file'') i content)
    \<or> (\<exists>i. i + length (ascii ''@copyright'') \<le> 500 \<and> occurs_at (ascii ''@copyright'') i content)"
    unfolding has_copyright_def contains_window by (rule refl)
  show "has_copyright content = has_copyright (take 500 content)"
    by (simp add: has_copyright_def)
qed

text \<open>
  C8. The style-sheet template and the generic template render to the same string, for
  the file name and description the processor passes and for any other keyword
  arguments, failures included.
\<close>

theorem templates_render_alike:
  "format CSS_COPYRIGHT [(ascii ''filename'', filename), (ascii ''description'', description)]
     = format TS_COPYRIGHT [(ascii ''filename'', filename), (ascii ''description'', description)]
   \<and> format CSS_COPYRIGHT kwargs = format TS_COPYRIGHT kwargs"
  by (simp only: templates_equal)

section \<open>Properties of the file processor\<close>

text \<open>
  C3, as the code has it. When the file can be read and the content read has the marker within its first
  500 characters (as it has whenever the stored content has it there), the processor
  writes nothing: the file is as before and the value returned is never \<open>True\<close>. The
  one line printed is the skip report and the value returned is \<open>False\<close>, as soon as
  the console takes that line.
\<close>

theorem marked_file_is_skipped:
  assumes "read_text f filepath = Inr content"
      and "has_copyright content \<or> (\<exists>raw. stored f = Text raw \<and> has_copyright raw)"
  shows "fst (add_copyright_to_file console f filepath description) = f
       \<and> snd (snd (add_copyright_to_file console f filepath description)) \<noteq> Inr True
       \<and> (console (skipped filepath) = None \<longrightarrow>
            add_copyright_to_file console f filepath description
              = (f, [skipped filepath], Inr False))"
proof -
  from assms(1) obtain raw where raw: "stored f = Text raw" "content = universal_newlines raw"
    unfolding read_text_Inr by blast
  from assms(2) have m: "has_copyright content"
  proof
    assume "has_copyright content" then show ?thesis .
  next
    assume "\<exists>raw. stored f = Text raw \<and> has_copyright raw"
    with raw show ?thesis by (auto intro: has_copyright_read)
  qed
  with assms(1) have "settled f" using settled_iff[of f filepath] by simp
  from settled_fixed[OF this] skipping_call[OF assms(1) m] show ?thesis by blast
qed

theorem marked_file_is_skipped_witness:
  "read_text styles (ascii ''src/theme/styles.css'') = Inr (ascii ''/* @copyright ACME */ body {}'')
   \<and> has_copyright (ascii ''/* @copyright ACME */ body {}'')
   \<and> utf8_console (skipped (ascii ''src/theme/styles.css'')) = None
   \<and> add_copyright_to_file utf8_console styles (ascii ''src/theme/styles.css'') (ascii ''d'')
       = (styles, [skipped (ascii ''src/theme/styles.css'')], Inr False)"
proof -
  have t: "utf8_console (skipped (ascii ''src/theme/styles.css'')) = None"
    by (simp add: utf8_console_takes encodable_skipped encodable_ascii)
  from marked_file_is_skipped[OF read_styles, where console = utf8_console
         and filepath = "ascii ''src/theme/styles.css''" and description = "ascii ''d''"]
       read_styles marked_styles t
  show ?thesis by blast
qed

text \<open>
  The skip is not always reported, and the call does not always return. On a standard
  output that encodes strictly, the skip line for a path with a lone surrogate cannot
  be printed: the \<open>print\<close> raises inside the \<open>try\<close>, the handler's \<open>print\<close> of the failure
  line, which has the same path in it, raises in its turn, and the call ends with that
  exception. The file is as before.
\<close>

theorem unprintable_skip_raises:
  "read_text styles (join (ascii ''src'') odd_name) = Inr (ascii ''/* @copyright ACME */ body {}'')
   \<and> has_copyright (ascii ''/* @copyright ACME */ body {}'')
   \<and> add_copyright_to_file utf8_console styles (join (ascii ''src'') odd_name) (ascii ''d'')
       = (styles, [],
          Inl (encode_error (failed (join (ascii ''src'') odd_name)
                 (encode_error (skipped (join (ascii ''src'') odd_name))))))"
proof -
  have r: "read_text styles (join (ascii ''src'') odd_name)
             = Inr (ascii ''/* @copyright ACME */ body {}'')"
    using read_styles by (rule read_text_any_path)
  have s: "utf8_console (skipped (join (ascii ''src'') odd_name))
             = Some (encode_error (skipped (join (ascii ''src'') odd_name)))"
    by (simp add: utf8_console_refuses encodable_skipped odd_path)
  have t: "try_body utf8_console styles (join (ascii ''src'') odd_name) (ascii ''d'')
             = (styles, [], Inl (encode_error (skipped (join (ascii ''src'') odd_name))))"
    by (simp add: try_body_skip[OF r marked_styles] s)
  have "add_copyright_to_file utf8_console styles (join (ascii ''src'') odd_name) (ascii ''d'')
       = (styles, [],
          Inl (encode_error (failed (join (ascii ''src'') odd_name)
                 (encode_error (skipped (join (ascii ''src'') odd_name))))))"
    by (simp add: handler[OF t] utf8_console_refuses encodable_failed odd_path)
  with r marked_styles show ?thesis by (intro conjI)
qed

text \<open>
  C1, as the code has it. When the file is read, the content read lacks the marker in
  its first 500 characters and the body of the processor ends without an exception,
  the file afterwards holds the rendered header (base name of the path and description
  filled in) followed at once by the content as it was read, nothing else about the
  file changes, the one line printed reports the addition and the value returned is
  \<open>True\<close>. The content read is the stored content with every \<open>\r\n\<close> and every single
  \<open>\r\<close> turned into \<open>\n\<close>; it is the stored content itself when that holds no
  carriage return.
\<close>

theorem annotation_prepends_header:
  assumes "read_text f filepath = Inr content"
      and "\<not> has_copyright content"
      and "try_body console f filepath description = (f', out, Inr r)"
  shows "add_copyright_to_file console f filepath description = (f', [added filepath], Inr True)
       \<and> f' = f\<lparr>stored := Text (rendered_header (basename filepath) description @ content)\<rparr>
       \<and> (\<exists>raw. stored f = Text raw \<and> content = universal_newlines raw
              \<and> (13 \<notin> set raw \<longrightarrow> content = raw))"
proof -
  let ?new = "rendered_header (basename filepath) description @ content"
  obtain g w where w: "write_text f filepath ?new = (g, w)" by (cases "write_text f filepath ?new")
  from assms(3) w have "w = None" "g = f'" "out = [added filepath]" "r = True"
    by (auto simp: try_body_write[OF assms(1,2)] split: option.splits)
  with w have wf: "write_text f filepath ?new = (f', None)" by simp
  then have "f' = f\<lparr>stored := Text ?new\<rparr>"
    using write_text_cases by fastforce
  moreover have "add_copyright_to_file console f filepath description = (f', [added filepath], Inr True)"
    using no_handler[OF assms(3)] \<open>out = [added filepath]\<close> \<open>r = True\<close> by simp
  moreover from assms(1) obtain raw where "stored f = Text raw" "content = universal_newlines raw"
    unfolding read_text_Inr by blast
  then have "\<exists>raw. stored f = Text raw \<and> content = universal_newlines raw
              \<and> (13 \<notin> set raw \<longrightarrow> content = raw)"
    by (auto simp: universal_newlines_id)
  ultimately show ?thesis by blast
qed

lemma try_widget:
  "try_body utf8_console widget (ascii ''src/widget.tsx'') (ascii ''d'')
     = (annotated_widget, [added (ascii ''src/widget.tsx'')], Inr True)"
proof -
  have "add_copyright_to_file utf8_console widget (ascii ''src/widget.tsx'') (ascii ''d'')
          = (annotated_widget, [added (ascii ''src/widget.tsx'')], Inr True)"
    by (rule call_widget)
  then show ?thesis
    by (auto simp: add_copyright_to_file_def split: prod.splits sum.splits option.splits)
qed

theorem annotation_prepends_header_witness:
  "read_text widget (ascii ''src/widget.tsx'') = Inr (ascii ''export const x = 1;'')
   \<and> \<not> has_copyright (ascii ''export const x = 1;'')
   \<and> add_copyright_to_file utf8_console widget (ascii ''src/widget.tsx'') (ascii ''d'')
       = (widget\<lparr>stored := Text (rendered_header (ascii ''widget.tsx'') (ascii ''d'')
                                 @ ascii ''export const x = 1;'')\<rparr>,
          [added (ascii ''src/widget.tsx'')], Inr True)"
  using annotation_prepends_header[OF read_widget unmarked_widget try_widget]
        read_widget unmarked_widget
  by (simp add: annotated_widget_def)

text \<open>
  The stored content is not always kept as it is. A file that holds \<open>a\r\nb\<close> has no
  marker and is annotated with success, and afterwards it holds the header followed by
  \<open>a\nb\<close>: the line end has changed.
\<close>

theorem crlf_is_rewritten:
  "stored crlf = Text (ascii ''a'' @ [13, 10] @ ascii ''b'')
   \<and> \<not> has_copyright (ascii ''a'' @ [13, 10] @ ascii ''b'')
   \<and> add_copyright_to_file utf8_console crlf (ascii ''src/w.ts'') (ascii ''d'')
       = (crlf\<lparr>stored := Text (rendered_header (ascii ''w.ts'') (ascii ''d'')
                               @ ascii ''a'' @ [10] @ ascii ''b'')\<rparr>,
          [added (ascii ''src/w.ts'')], Inr True)
   \<and> rendered_header (ascii ''w.ts'') (ascii ''d'') @ ascii ''a'' @ [10] @ ascii ''b''
       \<noteq> rendered_header (ascii ''w.ts'') (ascii ''d'') @ ascii ''a'' @ [13, 10] @ ascii ''b''"
proof -
  have u: "\<not> has_copyright (ascii ''a'' @ [10] @ ascii ''b'')"
    by (simp add: has_copyright_def ascii_def startswith_def)
  have "add_copyright_to_file utf8_console crlf (ascii ''src/w.ts'') (ascii ''d'')
       = (crlf\<lparr>stored := Text (rendered_header (basename (ascii ''src/w.ts'')) (ascii ''d'')
                               @ ascii ''a'' @ [10] @ ascii ''b'')\<rparr>,
          [added (ascii ''src/w.ts'')], Inr True)"
    by (rule annotating_call[OF read_crlf u])
       (simp_all add: crlf_def basenames encodable_append encodable_rendered encodable_ascii
          encodable_Cons surrogate_def utf8_console_takes encodable_added)
  moreover have "\<not> has_copyright (ascii ''a'' @ [13, 10] @ ascii ''b'')"
    by (simp add: has_copyright_def ascii_def startswith_def)
  moreover have "stored crlf = Text (ascii ''a'' @ [13, 10] @ ascii ''b'')"
    by (simp add: crlf_def)
  ultimately show ?thesis by (simp add: ascii_def basename_def slash_def)
qed

text \<open>
  C9. For every file name and description both templates render without an exception
  to the header block, which starts with the comment line that carries the \<open>@file\<close>
  tag: the tag stands at position 7. So the detector answers true on the header
  followed by any content, also after the line ends have been translated by a read,
  and a file that the processor has annotated (value returned \<open>True\<close>) is read back
  with a content on which the detector answers true.
\<close>

theorem rendered_header_is_recognised:
  "format TS_COPYRIGHT [(ascii ''filename'', filename), (ascii ''description'', description)]
     = Inr (rendered_header filename description)
   \<and> format CSS_COPYRIGHT [(ascii ''filename'', filename), (ascii ''description'', description)]
     = Inr (rendered_header filename description)
   \<and> startswith (rendered_header filename description) (ascii ''/**\<newline> * @file '')
   \<and> occurs_at (ascii ''@file'') 7 (rendered_header filename description)
   \<and> has_copyright (rendered_header filename description @ content)
   \<and> has_copyright (universal_newlines (rendered_header filename description @ content))
   \<and> (add_copyright_to_file console f filepath description = (f', out, Inr True)
        \<longrightarrow> (\<exists>c. read_text f' filepath = Inr c \<and> has_copyright c))"
proof -
  have "occurs_at (ascii ''@file'') 7 (rendered_header filename description)"
    by (simp add: occurs_at_def rendered_header_def ascii_def)
  moreover have "add_copyright_to_file console f filepath description = (f', out, Inr True)
        \<longrightarrow> (\<exists>c. read_text f' filepath = Inr c \<and> has_copyright c)"
  proof
    assume "add_copyright_to_file console f filepath description = (f', out, Inr True)"
    from add_True[OF this] obtain c where
      "read_text f filepath = Inr c"
      "write_text f filepath (rendered_header (basename filepath) description @ c) = (f', None)"
      by blast
    from read_after_write[OF this] show "\<exists>c. read_text f' filepath = Inr c \<and> has_copyright c"
      by (simp add: has_copyright_rendered_read)
  qed
  ultimately show ?thesis
    by (simp only: render_ts render_css startswith_rendered has_copyright_rendered
          has_copyright_rendered_read simp_thms)
qed

theorem rendered_header_is_recognised_witness:
  "add_copyright_to_file utf8_console widget (ascii ''src/widget.tsx'') (ascii ''d'')
     = (annotated_widget, [added (ascii ''src/widget.tsx'')], Inr True)
   \<and> (\<exists>c. read_text annotated_widget (ascii ''src/widget.tsx'') = Inr c \<and> has_copyright c)"
  using rendered_header_is_recognised[where console = utf8_console and f = widget
          and filepath = "ascii ''src/widget.tsx''" and description = "ascii ''d''"]
        call_widget
  by blast

text \<open>
  C10, as the code has it. When the read fails (the open is refused or the bytes do not
  decode), the file is left as it is and the value returned is not \<open>True\<close>: the failure
  is reported and the value returned is \<open>False\<close> as soon as the console takes the
  failure line. The same holds when the open for writing is refused. Rendering the
  template never raises, whatever the base name of the path and the description are.
  Nothing is promised about a file once the write has started.
\<close>

theorem failure_before_write_keeps_file:
  "(read_text f filepath = Inl e \<longrightarrow>
      fst (add_copyright_to_file console f filepath description) = f
      \<and> snd (snd (add_copyright_to_file console f filepath description)) \<noteq> Inr True
      \<and> (console (failed filepath e) = None \<longrightarrow>
           add_copyright_to_file console f filepath description
             = (f, [failed filepath e], Inr False)))
   \<and> (write_denied f = Some refusal \<longrightarrow>
      fst (add_copyright_to_file console f filepath description) = f
      \<and> snd (snd (add_copyright_to_file console f filepath description)) \<noteq> Inr True
      \<and> (read_text f filepath = Inr content \<and> \<not> has_copyright content
           \<and> console (failed filepath (refusal filepath)) = None \<longrightarrow>
           add_copyright_to_file console f filepath description
             = (f, [failed filepath (refusal filepath)], Inr False)))
   \<and> format TS_COPYRIGHT [(ascii ''filename'', basename filepath), (ascii ''description'', description)]
       = Inr (rendered_header (basename filepath) description)
   \<and> format CSS_COPYRIGHT [(ascii ''filename'', basename filepath), (ascii ''description'', description)]
       = Inr (rendered_header (basename filepath) description)"
proof -
  have "read_text f filepath = Inl e \<longrightarrow>
      fst (add_copyright_to_file console f filepath description) = f
      \<and> snd (snd (add_copyright_to_file console f filepath description)) \<noteq> Inr True
      \<and> (console (failed filepath e) = None \<longrightarrow>
           add_copyright_to_file console f filepath description
             = (f, [failed filepath e], Inr False))"
  proof
    assume r: "read_text f filepath = Inl e"
    then have "settled f" using settled_iff[of f filepath] by simp
    from settled_fixed[OF this] failing_read_call[OF r]
    show "fst (add_copyright_to_file console f filepath description) = f
      \<and> snd (snd (add_copyright_to_file console f filepath description)) \<noteq> Inr True
      \<and> (console (failed filepath e) = None \<longrightarrow>
           add_copyright_to_file console f filepath description
             = (f, [failed filepath e], Inr False))"
      by blast
  qed
  moreover have "(write_denied f = Some refusal \<longrightarrow>
      fst (add_copyright_to_file console f filepath description) = f
      \<and> snd (snd (add_copyright_to_file console f filepath description)) \<noteq> Inr True
      \<and> (read_text f filepath = Inr content \<and> \<not> has_copyright content
           \<and> console (failed filepath (refusal filepath)) = None \<longrightarrow>
           add_copyright_to_file console f filepath description
             = (f, [failed filepath (refusal filepath)], Inr False)))"
  proof
    assume w: "write_denied f = Some refusal"
    then have "settled f" by (simp add: settled_def)
    from settled_fixed[OF this]
    have 1: "fst (add_copyright_to_file console f filepath description) = f
      \<and> snd (snd (add_copyright_to_file console f filepath description)) \<noteq> Inr True" .
    have 2: "read_text f filepath = Inr content \<and> \<not> has_copyright content
           \<and> console (failed filepath (refusal filepath)) = None \<longrightarrow>
           add_copyright_to_file console f filepath description
             = (f, [failed filepath (refusal filepath)], Inr False)"
    proof
      assume a: "read_text f filepath = Inr content \<and> \<not> has_copyright content
           \<and> console (failed filepath (refusal filepath)) = None"
      from w have "write_text f filepath (rendered_header (basename filepath) description @ content)
                     = (f, Some (refusal filepath))"
        by (simp add: write_text_def)
      with a have "try_body console f filepath description = (f, [], Inl (refusal filepath))"
        by (simp add: try_body_write)
      from handler[OF this] a
      show "add_copyright_to_file console f filepath description
             = (f, [failed filepath (refusal filepath)], Inr False)"
        by simp
    qed
    from 1 2 show "fst (add_copyright_to_file console f filepath description) = f
      \<and> snd (snd (add_copyright_to_file console f filepath description)) \<noteq> Inr True
      \<and> (read_text f filepath = Inr content \<and> \<not> has_copyright content
           \<and> console (failed filepath (refusal filepath)) = None \<longrightarrow>
           add_copyright_to_file console f filepath description
             = (f, [failed filepath (refusal filepath)], Inr False))"
      by blast
  qed
  ultimately show ?thesis using render_ts render_css by blast
qed

theorem failure_before_write_keeps_file_witness:
  "read_text garbled (ascii ''src/theme/g.ts'')
     = Inl (UnicodeDecodeError ([0x27] @ ascii ''utf-8'' @ [0x27] @ ascii '' codec can'' @ [0x27]
              @ ascii ''t decode byte 0xff in position 0: invalid start byte''))
   \<and> add_copyright_to_file utf8_console garbled (ascii ''src/theme/g.ts'') (ascii ''d'')
       = (garbled,
          [failed (ascii ''src/theme/g.ts'')
             (UnicodeDecodeError ([0x27] @ ascii ''utf-8'' @ [0x27] @ ascii '' codec can'' @ [0x27]
                @ ascii ''t decode byte 0xff in position 0: invalid start byte''))],
          Inr False)
   \<and> write_denied locked = Some permission_denied
   \<and> read_text locked (ascii ''src/l.ts'') = Inr (ascii ''let y = 2;'')
   \<and> \<not> has_copyright (ascii ''let y = 2;'')
   \<and> add_copyright_to_file utf8_console locked (ascii ''src/l.ts'') (ascii ''d'')
       = (locked, [failed (ascii ''src/l.ts'') (permission_denied (ascii ''src/l.ts''))], Inr False)"
proof -
  have rl: "read_text locked (ascii ''src/l.ts'') = Inr (ascii ''let y = 2;'')"
    by (simp add: read_text_def locked_def encodable_ascii) (simp add: ascii_def)
  have ul: "\<not> has_copyright (ascii ''let y = 2;'')"
    by (simp add: has_copyright_def ascii_def startswith_def)
  have tl: "utf8_console (failed (ascii ''src/l.ts'') (permission_denied (ascii ''src/l.ts''))) = None"
    by (simp add: utf8_console_takes encodable_failed encodable_permission_denied encodable_ascii)
  have t: "utf8_console (failed (ascii ''src/theme/g.ts'')
             (UnicodeDecodeError ([0x27] @ ascii ''utf-8'' @ [0x27] @ ascii '' codec can'' @ [0x27]
                @ ascii ''t decode byte 0xff in position 0: invalid start byte''))) = None"
    by (simp add: utf8_console_takes encodable_failed encodable_ascii encodable_append
        encodable_Cons surrogate_def)
  from failure_before_write_keeps_file[where f = garbled and filepath = "ascii ''src/theme/g.ts''"
          and description = "ascii ''d''" and console = utf8_console
          and e = "UnicodeDecodeError ([0x27] @ ascii ''utf-8'' @ [0x27] @ ascii '' codec can'' @ [0x27]
                @ ascii ''t decode byte 0xff in position 0: invalid start byte'')"]
        failure_before_write_keeps_file[where f = locked and filepath = "ascii ''src/l.ts''"
          and description = "ascii ''d''" and console = utf8_console
          and refusal = permission_denied and content = "ascii ''let y = 2;''"]
        read_garbled locked_refuses t rl ul tl
  show ?thesis by blast
qed

text \<open>
  A brace in the base name does not make the format step raise: \<open>str.format\<close> reads the
  braces of the template only and copies the name into the header as it is. The file
  \<open>src/a{b}.ts\<close> is annotated, the value returned is \<open>True\<close> and the file has changed.
  And a failed read does not always end with the value \<open>False\<close>: when the path has a
  lone surrogate and the standard output encodes strictly, the handler's \<open>print\<close> of the
  failure line raises and the call ends with that exception, the file being untouched.
\<close>

theorem brace_in_name_is_rendered:
  "lbrace \<in> set (basename (ascii ''src/a{b}.ts''))
   \<and> format TS_COPYRIGHT [(ascii ''filename'', basename (ascii ''src/a{b}.ts'')),
                           (ascii ''description'', ascii ''d'')]
       = Inr (rendered_header (ascii ''a{b}.ts'') (ascii ''d''))
   \<and> add_copyright_to_file utf8_console widget (ascii ''src/a{b}.ts'') (ascii ''d'')
       = (widget\<lparr>stored := Text (rendered_header (ascii ''a{b}.ts'') (ascii ''d'')
                                 @ ascii ''export const x = 1;'')\<rparr>,
          [added (ascii ''src/a{b}.ts'')], Inr True)
   \<and> widget\<lparr>stored := Text (rendered_header (ascii ''a{b}.ts'') (ascii ''d'')
                                 @ ascii ''export const x = 1;'')\<rparr> \<noteq> widget
   \<and> read_text garbled (join (ascii ''src'') odd_name)
       = Inl (UnicodeDecodeError ([0x27] @ ascii ''utf-8'' @ [0x27] @ ascii '' codec can'' @ [0x27]
                @ ascii ''t decode byte 0xff in position 0: invalid start byte''))
   \<and> add_copyright_to_file utf8_console garbled (join (ascii ''src'') odd_name) (ascii ''d'')
       = (garbled, [],
          Inl (encode_error (failed (join (ascii ''src'') odd_name)
                 (UnicodeDecodeError ([0x27] @ ascii ''utf-8'' @ [0x27] @ ascii '' codec can'' @ [0x27]
                    @ ascii ''t decode byte 0xff in position 0: invalid start byte'')))))"
proof -
  have 5: "add_copyright_to_file utf8_console garbled (join (ascii ''src'') odd_name) (ascii ''d'')
       = (garbled, [],
          Inl (encode_error (failed (join (ascii ''src'') odd_name)
                 (UnicodeDecodeError ([0x27] @ ascii ''utf-8'' @ [0x27] @ ascii '' codec can'' @ [0x27]
                    @ ascii ''t decode byte 0xff in position 0: invalid start byte'')))))"
    by (simp add: handler[OF try_body_read_failure[OF read_garbled]] utf8_console_refuses
        encodable_failed odd_path)
  have 1: "lbrace \<in> set (basename (ascii ''src/a{b}.ts''))"
    by (simp add: basenames) (simp add: ascii_def lbrace_def)
  have 2: "format TS_COPYRIGHT [(ascii ''filename'', basename (ascii ''src/a{b}.ts'')),
                           (ascii ''description'', ascii ''d'')]
       = Inr (rendered_header (ascii ''a{b}.ts'') (ascii ''d''))"
    by (simp add: format_def TS_COPYRIGHT_def ascii_def rendered_header_def lbrace_def rbrace_def
        field_value_def plain_name_def numbered_def prepend_def basename_def slash_def)
  have 3: "add_copyright_to_file utf8_console widget (ascii ''src/a{b}.ts'') (ascii ''d'')
       = (widget\<lparr>stored := Text (rendered_header (ascii ''a{b}.ts'') (ascii ''d'')
                                 @ ascii ''export const x = 1;'')\<rparr>,
          [added (ascii ''src/a{b}.ts'')], Inr True)"
    unfolding basenames(3)[symmetric]
    by (rule annotating_call[OF read_widget unmarked_widget])
       (simp_all add: widget_def basenames encodable_append encodable_rendered encodable_ascii
          utf8_console_takes encodable_added)
  have 4: "widget\<lparr>stored := Text (rendered_header (ascii ''a{b}.ts'') (ascii ''d'')
                                 @ ascii ''export const x = 1;'')\<rparr> \<noteq> widget"
    by (simp add: widget_def rendered_header_def ascii_def)
  from 1 2 3 4 read_garbled[of "join (ascii ''src'') odd_name"] 5 show ?thesis by (intro conjI)
qed

text \<open>
  Once the write has started the old content is gone. A file whose name holds a lone
  surrogate gets a header that cannot be encoded: the open has emptied the file, the
  write raises, and the file stays empty. On a console that takes every line the
  failure is reported and the value returned is \<open>False\<close>.
\<close>

lemma odd_header: "\<not> encodable (rendered_header odd_name (ascii ''d'') @ content)"
  by (simp add: encodable_append encodable_rendered) (simp add: odd_name_def encodable_def surrogate_def)

lemma try_odd:
  "try_body console widget (join (ascii ''src'') odd_name) (ascii ''d'')
     = (widget\<lparr>stored := Text []\<rparr>, [],
        Inl (encode_error (rendered_header odd_name (ascii ''d'') @ ascii ''export const x = 1;'')))"
proof -
  have "write_text widget (join (ascii ''src'') odd_name)
          (rendered_header odd_name (ascii ''d'') @ ascii ''export const x = 1;'')
        = (widget\<lparr>stored := Text []\<rparr>,
           Some (encode_error (rendered_header odd_name (ascii ''d'') @ ascii ''export const x = 1;'')))"
    using odd_header by (simp add: write_text_def widget_def)
  then show ?thesis
    by (simp add: try_body_write[OF read_widget unmarked_widget] basename_odd)
qed

lemma failed_write_empties_file:
  "add_copyright_to_file lenient_console widget (join (ascii ''src'') odd_name) (ascii ''d'')
     = (widget\<lparr>stored := Text []\<rparr>,
        [failed (join (ascii ''src'') odd_name)
           (encode_error (rendered_header odd_name (ascii ''d'') @ ascii ''export const x = 1;''))],
        Inr False)"
  by (simp add: handler[OF try_odd] lenient_console_def)



lemma shelf_files:
  "shelf 0 = widget" "shelf 1 = memo" "shelf 2 = module_file" "shelf 3 = styles"
  "shelf 4 = garbled" "shelf 5 = unreadable"
  by (simp_all add: shelf_def)





section \<open>Properties of the directory walker\<close>

text \<open>Runs on the small projects, evaluated.\<close>

lemma example_selected:
  "selected web_extensions (ascii ''src'') project
     = [(ascii ''src/widget.tsx'', 0), (ascii ''src/theme/styles.css'', 3),
        (ascii ''src/theme/g.ts'', 4)]"
  by (simp add: project_def accepted_def accepted_names excluded_names joined_paths)

lemma example_run:
  "process_directory utf8_console (Directory project) (ascii ''src'') (ascii ''d'') web_extensions
     shelf
   = (shelf(0 := annotated_widget),
      [added (ascii ''src/widget.tsx''), skipped (ascii ''src/theme/styles.css''),
       failed (ascii ''src/theme/g.ts'')
         (UnicodeDecodeError ([0x27] @ ascii ''utf-8'' @ [0x27] @ ascii '' codec can'' @ [0x27]
            @ ascii ''t decode byte 0xff in position 0: invalid start byte''))],
      Inr 1)"
proof -
  have s: "(shelf(0 := annotated_widget)) 3 = styles" "(shelf(0 := annotated_widget)) 4 = garbled"
    by (simp_all add: shelf_def)
  have "process_all utf8_console (ascii ''d'')
          [(ascii ''src/widget.tsx'', 0), (ascii ''src/theme/styles.css'', 3),
           (ascii ''src/theme/g.ts'', 4)] shelf
        = (shelf(0 := annotated_widget),
           [added (ascii ''src/widget.tsx''), skipped (ascii ''src/theme/styles.css''),
            failed (ascii ''src/theme/g.ts'')
              (UnicodeDecodeError ([0x27] @ ascii ''utf-8'' @ [0x27] @ ascii '' codec can'' @ [0x27]
                 @ ascii ''t decode byte 0xff in position 0: invalid start byte''))],
           Inr 1)"
    by (simp add: shelf_files call_widget s call_styles call_garbled fun_upd_idem)
  then show ?thesis by (simp only: process_directory_flat example_selected)
qed



lemma selected_hidden:
  "selected extensions root (hide_excluded tree) = selected extensions root tree"
  and selected_in_hidden:
  "selected_in extensions root (hide_excluded_in dirs) = selected_in extensions root dirs"
  by (induction extensions root tree and extensions root dirs rule: selected_selected_in.induct)
     simp_all

text \<open>
  C5, as the code has it. A run of \<open>process_directory\<close> opens no path that passes
  through a subdirectory with an excluded name (\<open>node_modules\<close>, \<open>dist\<close>, \<open>build\<close>,
  \<open>.git\<close>), whatever the extensions of the names below it are: the run is the same on
  the tree with these subtrees emptied, and a file that none of the selected paths
  leads to is neither read nor written (it is left as it was, and the run does not
  depend on what it holds). The names are those of the subdirectories the walk finds
  beneath the directory it starts from.
\<close>

theorem excluded_subtrees_are_not_walked:
  "process_directory console (Directory (hide_excluded tree)) directory description extensions d
     = process_directory console (Directory tree) directory description extensions d
   \<and> selected extensions directory (hide_excluded tree) = selected extensions directory tree
   \<and> (i \<notin> snd ` set (selected extensions directory tree) \<longrightarrow>
        fst (process_directory console (Directory tree) directory description extensions d) i = d i
        \<and> process_directory console (Directory tree) directory description extensions (d(i := g))
            = (case process_directory console (Directory tree) directory description extensions d of
                 (d', log, r) \<Rightarrow> (d'(i := g), log, r)))"
  unfolding process_directory_flat selected_hidden
  using process_all_frame[of i "selected extensions directory tree" console description d g]
  by blast

lemma example_excluded: "excluded_parts project = [Dir [(ascii ''index.ts'', 2)] []]"
  by (simp add: project_def excluded_names)

lemma example_unselected: "2 \<notin> snd ` set (selected web_extensions (ascii ''src'') project)"
  by (simp add: example_selected)

theorem excluded_subtrees_are_not_walked_witness:
  "excluded_parts project = [Dir [(ascii ''index.ts'', 2)] []]
   \<and> 2 \<notin> snd ` set (selected web_extensions (ascii ''src'') project)
   \<and> (shelf(0 := annotated_widget)) 2 = shelf 2
   \<and> process_directory utf8_console (Directory project) (ascii ''src'') (ascii ''d'')
        web_extensions (shelf(2 := garbled))
       = ((shelf(0 := annotated_widget))(2 := garbled),
          [added (ascii ''src/widget.tsx''), skipped (ascii ''src/theme/styles.css''),
           failed (ascii ''src/theme/g.ts'')
             (UnicodeDecodeError ([0x27] @ ascii ''utf-8'' @ [0x27] @ ascii '' codec can'' @ [0x27]
                @ ascii ''t decode byte 0xff in position 0: invalid start byte''))],
          Inr 1)"
proof -
  note f = excluded_subtrees_are_not_walked[where console = utf8_console and tree = project
      and directory = "ascii ''src''" and description = "ascii ''d''"
      and extensions = web_extensions and d = shelf and i = 2 and g = garbled,
      THEN conjunct2, THEN conjunct2, THEN mp, OF example_unselected]
  from f[THEN conjunct1] have 1: "(shelf(0 := annotated_widget)) 2 = shelf 2"
    by (simp only: example_run fst_conv)
  from f[THEN conjunct2] have 2: "process_directory utf8_console (Directory project) (ascii ''src'')
        (ascii ''d'') web_extensions (shelf(2 := garbled))
       = ((shelf(0 := annotated_widget))(2 := garbled),
          [added (ascii ''src/widget.tsx''), skipped (ascii ''src/theme/styles.css''),
           failed (ascii ''src/theme/g.ts'')
             (UnicodeDecodeError ([0x27] @ ascii ''utf-8'' @ [0x27] @ ascii '' codec can'' @ [0x27]
                @ ascii ''t decode byte 0xff in position 0: invalid start byte''))],
          Inr 1)"
    by (simp only: example_run prod.case)
  from example_excluded example_unselected 1 2 show ?thesis by (intro conjI)
qed

text \<open>
  A file below an excluded directory is not safe from the run. The module of
  \<open>node_modules\<close> has a second name, \<open>alias.ts\<close>, at the top (a hard link, or a symbolic
  link to it): the walk lists that name among the files, the processor opens it, and
  the module is read and rewritten.
\<close>

theorem linked_file_below_excluded_is_written:
  "excluded_parts linked_project = [Dir [(ascii ''index.ts'', 2)] []]
   \<and> shelf 2 = module_file
   \<and> process_directory utf8_console (Directory linked_project) (ascii ''src'') (ascii ''d'')
        web_extensions shelf
       = (shelf(2 := annotated_module), [added (ascii ''src/alias.ts'')], Inr 1)
   \<and> annotated_module \<noteq> module_file"
proof -
  have 1: "excluded_parts linked_project = [Dir [(ascii ''index.ts'', 2)] []]"
    by (simp add: linked_project_def excluded_names)
  have c: "add_copyright_to_file utf8_console module_file (ascii ''src/alias.ts'') (ascii ''d'')
             = (annotated_module, [added (ascii ''src/alias.ts'')], Inr True)"
    unfolding annotated_module_def basenames(4)[symmetric]
    by (rule annotating_call[OF read_module unmarked_module])
       (simp_all add: module_file_def basenames encodable_append encodable_rendered encodable_ascii
          utf8_console_takes encodable_added)
  have s: "selected web_extensions (ascii ''src'') linked_project = [(ascii ''src/alias.ts'', 2)]"
    by (simp add: linked_project_def accepted_def accepted_names excluded_names joined_paths)
  have 3: "process_directory utf8_console (Directory linked_project) (ascii ''src'') (ascii ''d'')
        web_extensions shelf
       = (shelf(2 := annotated_module), [added (ascii ''src/alias.ts'')], Inr 1)"
    unfolding process_directory_flat s by (simp add: shelf_files c)
  have 4: "annotated_module \<noteq> module_file"
    by (simp add: annotated_module_def module_file_def rendered_header_def ascii_def)
  from 1 shelf_files(3) 3 4 show ?thesis by (intro conjI)
qed

lemma count_le_calls:
  "process_all console description entries d = (d', log, Inr n) \<Longrightarrow> n \<le> length entries"
proof (induction entries arbitrary: d d' log n)
  case Nil
  then show ?case by simp
next
  case (Cons x entries)
  obtain p j where x: "x = (p, j)" by (cases x)
  show ?case
  proof (cases rule: process_all_cases[of console d j p description entries])
    case (raise f' out e)
    with Cons.prems show ?thesis unfolding x by simp
  next
    case (return f' out modified d2 log2 r)
    from return(3) Cons.prems obtain m where
      r: "r = Inr m" and n: "n = (if modified then 1 else 0) + m"
      unfolding x by (auto split: sum.splits)
    from return(2)[unfolded r] have "m \<le> length entries" by (rule Cons.IH)
    with n show ?thesis by (simp add: x)
  qed
qed

text \<open>
  C7, as the code has it. \<open>process_directory\<close> hands to the file processor exactly the
  selected entries, one call for each in the order of the walk: the names with an
  accepted extension in the directories reached without passing through an excluded
  name. The count returned is the number of these calls that returned \<open>True\<close>: a call
  that skips or fails returns \<open>False\<close> and is not counted, and an exception that leaves a
  call ends the run. A file that no selected entry leads to is left as it was.
\<close>

theorem walk_processes_selected_files:
  "process_directory console (Directory tree) directory description extensions d
     = process_all console description (selected extensions directory tree) d
   \<and> (i \<notin> snd ` set (selected extensions directory tree) \<longrightarrow>
        fst (process_directory console (Directory tree) directory description extensions d) i = d i)
   \<and> (process_directory console (Directory tree) directory description extensions d
         = (d', log, Inr n) \<longrightarrow> n \<le> length (selected extensions directory tree))"
  unfolding process_directory_flat
  using process_all_frame[of i "selected extensions directory tree" console description d]
        count_le_calls[of console description "selected extensions directory tree" d d' log n]
  by blast

theorem walk_processes_selected_files_witness:
  "selected web_extensions (ascii ''src'') project
     = [(ascii ''src/widget.tsx'', 0), (ascii ''src/theme/styles.css'', 3),
        (ascii ''src/theme/g.ts'', 4)]
   \<and> 1 \<notin> snd ` set (selected web_extensions (ascii ''src'') project)
   \<and> process_all utf8_console (ascii ''d'')
        [(ascii ''src/widget.tsx'', 0), (ascii ''src/theme/styles.css'', 3),
         (ascii ''src/theme/g.ts'', 4)] shelf
       = (shelf(0 := annotated_widget),
          [added (ascii ''src/widget.tsx''), skipped (ascii ''src/theme/styles.css''),
           failed (ascii ''src/theme/g.ts'')
             (UnicodeDecodeError ([0x27] @ ascii ''utf-8'' @ [0x27] @ ascii '' codec can'' @ [0x27]
                @ ascii ''t decode byte 0xff in position 0: invalid start byte''))],
          Inr 1)
   \<and> (shelf(0 := annotated_widget)) 1 = shelf 1
   \<and> (1::nat) \<le> length (selected web_extensions (ascii ''src'') project)"
proof -
  have u: "1 \<notin> snd ` set (selected web_extensions (ascii ''src'') project)"
    by (simp add: example_selected)
  note w = walk_processes_selected_files[where console = utf8_console and tree = project
      and directory = "ascii ''src''" and description = "ascii ''d''"
      and extensions = web_extensions and d = shelf and i = 1]
  from w[THEN conjunct1] have 1: "process_all utf8_console (ascii ''d'')
        [(ascii ''src/widget.tsx'', 0), (ascii ''src/theme/styles.css'', 3),
         (ascii ''src/theme/g.ts'', 4)] shelf
       = (shelf(0 := annotated_widget),
          [added (ascii ''src/widget.tsx''), skipped (ascii ''src/theme/styles.css''),
           failed (ascii ''src/theme/g.ts'')
             (UnicodeDecodeError ([0x27] @ ascii ''utf-8'' @ [0x27] @ ascii '' codec can'' @ [0x27]
                @ ascii ''t decode byte 0xff in position 0: invalid start byte''))],
          Inr 1)"
    by (simp only: example_run example_selected)
  from w[THEN conjunct2, THEN conjunct1, THEN mp, OF u]
  have 2: "(shelf(0 := annotated_widget)) 1 = shelf 1"
    by (simp only: example_run fst_conv)
  from w[THEN conjunct2, THEN conjunct2, THEN mp, OF example_run]
  have 3: "(1::nat) \<le> length (selected web_extensions (ascii ''src'') project)" .
  from example_selected u 1 2 3 show ?thesis by (intro conjI)
qed

lemma call_memo:
  assumes "console (added (ascii ''src/notes.ts'')) = None"
  shows "add_copyright_to_file console memo (ascii ''src/notes.ts'') (ascii ''d'')
           = (annotated_memo, [added (ascii ''src/notes.ts'')], Inr True)"
  unfolding annotated_memo_def basenames(5)[symmetric]
  by (rule annotating_call[OF read_memo unmarked_memo])
     (simp_all add: memo_def basenames encodable_append encodable_rendered encodable_ascii assms)

text \<open>
  The count is not the number of files changed, and a name without an accepted
  extension does not protect a file. On a console that takes every line, the script
  with the odd name is emptied by its failed write and \<open>notes.ts\<close> is annotated: two
  files have changed and the count is 1. And the text file \<open>notes.md\<close>, which has
  \<open>notes.ts\<close> as a second name, is annotated through that name.
\<close>

theorem count_is_not_files_changed:
  "process_directory lenient_console (Directory odd_project) (ascii ''src'') (ascii ''d'')
     web_extensions shelf
   = (shelf(0 := widget\<lparr>stored := Text []\<rparr>, 1 := annotated_memo),
      [failed (join (ascii ''src'') odd_name)
         (encode_error (rendered_header odd_name (ascii ''d'') @ ascii ''export const x = 1;'')),
       added (ascii ''src/notes.ts'')],
      Inr 1)
   \<and> widget\<lparr>stored := Text []\<rparr> \<noteq> shelf 0
   \<and> annotated_memo \<noteq> shelf 1
   \<and> renamed_memo = Dir [(ascii ''notes.md'', 1), (ascii ''notes.ts'', 1)] []
   \<and> \<not> accepted web_extensions (ascii ''notes.md'')
   \<and> process_directory utf8_console (Directory renamed_memo) (ascii ''src'') (ascii ''d'')
        web_extensions shelf
       = (shelf(1 := annotated_memo), [added (ascii ''src/notes.ts'')], Inr 1)"
proof -
  have s1: "selected web_extensions (ascii ''src'') odd_project
              = [(join (ascii ''src'') odd_name, 0), (ascii ''src/notes.ts'', 1)]"
    by (simp add: odd_project_def accepted_def accepted_names joined_paths)
  have m: "shelf (Suc 0) = memo" by (simp add: shelf_def)
  have l: "lenient_console (added (ascii ''src/notes.ts'')) = None"
    by (simp add: lenient_console_def)
  have 1: "process_directory lenient_console (Directory odd_project) (ascii ''src'') (ascii ''d'')
     web_extensions shelf
   = (shelf(0 := widget\<lparr>stored := Text []\<rparr>, 1 := annotated_memo),
      [failed (join (ascii ''src'') odd_name)
         (encode_error (rendered_header odd_name (ascii ''d'') @ ascii ''export const x = 1;'')),
       added (ascii ''src/notes.ts'')],
      Inr 1)"
    unfolding process_directory_flat s1
    by (simp add: shelf_files failed_write_empties_file m call_memo[where console = lenient_console, OF l])
  have 2: "widget\<lparr>stored := Text []\<rparr> \<noteq> shelf 0"
    by (simp add: shelf_files) (simp add: widget_def ascii_def)
  have 3: "annotated_memo \<noteq> shelf 1"
    by (simp add: m) (simp add: annotated_memo_def memo_def rendered_header_def ascii_def)
  have 4: "renamed_memo = Dir [(ascii ''notes.md'', 1), (ascii ''notes.ts'', 1)] []"
    by (simp add: renamed_memo_def)
  have 5: "\<not> accepted web_extensions (ascii ''notes.md'')"
    by (simp add: accepted_def accepted_names)
  have s2: "selected web_extensions (ascii ''src'') renamed_memo = [(ascii ''src/notes.ts'', 1)]"
    by (simp add: renamed_memo_def accepted_def accepted_names joined_paths)
  have t: "utf8_console (added (ascii ''src/notes.ts'')) = None"
    by (simp add: utf8_console_takes encodable_added encodable_ascii)
  have 6: "process_directory utf8_console (Directory renamed_memo) (ascii ''src'') (ascii ''d'')
        web_extensions shelf
       = (shelf(1 := annotated_memo), [added (ascii ''src/notes.ts'')], Inr 1)"
    unfolding process_directory_flat s2
    by (simp add: m call_memo[where console = utf8_console, OF t])
  from 1 2 3 4 5 6 show ?thesis by (intro conjI)
qed

end
